theory Spec2Isabelle
  imports Complex_Main "HOL-Library.Multiset"
begin

section \<open>Values, errors and configuration\<close>

text \<open>
  The program is a Python script over pandas tables, configured by a JSON settings file.
  Python exceptions are values of type \<open>error\<close>; a function that can raise returns
  \<open>error + 'a\<close>. Python floats are abstracted to \<open>real\<close>. Output on stdout
  (the notices of the source normalizer) is not part of the model.
\<close>

datatype json =
    JNull
  | JBool bool
  | JNum real
  | JStr string
  | JArr "json list"
  | JObj "(string \<times> json) list"

text \<open>A \<open>KeyError\<close> carries the key that was looked up, as Python's does.\<close>

datatype error =
    ValueError string
  | KeyError json
  | TypeError string
  | AttributeError string

type_synonym pydict = "string \<rightharpoonup> json"

text \<open>Statements run in sequence; the first exception ends the run.\<close>

definition and_then :: "'e + 'a \<Rightarrow> ('a \<Rightarrow> 'e + 'b) \<Rightarrow> 'e + 'b" where
  "and_then r f = (case r of Inl e \<Rightarrow> Inl e | Inr v \<Rightarrow> f v)"

section \<open>Source Normalizer\<close>

definition load_and_transform_data_from_source_enrich_source :: "pydict \<Rightarrow> error + pydict" where
  "load_and_transform_data_from_source_enrich_source original_source =
     (let source = original_source in
      if source ''path'' = None then Inl (ValueError ''Source must have a path'')
      else if source ''type'' = None then Inl (ValueError ''Source must have a type'')
      else
        let source = (if source ''modifier'' = None then source(''modifier'' \<mapsto> JNum 1) else source);
            source = (if source ''account'' = None then source(''account'' \<mapsto> JStr ''Default'') else source)
        in Inr source)"

section \<open>Tables\<close>

text \<open>
  A pandas table is a list of column labels and a list of rows; a row maps each column
  label to a cell. Row labels are unique in every table the pipeline builds, so a row is
  addressed by its position. A timestamp is a calendar day; \<open>Null\<close> is pandas' missing
  value (NaN, NaT, NA).
\<close>

datatype timestamp = Timestamp (ts_year: int) (ts_month: int) (ts_day: int)

datatype cell =
    Null
  | Num real
  | IntC int
  | Str string
  | BoolC bool
  | DateC timestamp

type_synonym row = "string \<rightharpoonup> cell"

record dataframe =
  columns :: "string list"
  rows :: "row list"

text \<open>\<open>data[c] = f(row)\<close>: the column is overwritten in place or appended.\<close>

definition set_column :: "string \<Rightarrow> (row \<Rightarrow> cell) \<Rightarrow> dataframe \<Rightarrow> dataframe" where
  "set_column c f data =
     \<lparr>columns = (if c \<in> set (columns data) then columns data else columns data @ [c]),
      rows = map (\<lambda>r. r(c \<mapsto> f r)) (rows data)\<rparr>"

definition isna :: "cell option \<Rightarrow> bool" where
  "isna v = (v = None \<or> v = Some Null)"

section \<open>Calendar Enricher\<close>

text \<open>
  The \<open>.dt\<close> accessors and \<open>strftime\<close> are library calls; their calendar arithmetic is the
  proleptic Gregorian arithmetic of the datetime library.
\<close>

definition is_leap :: "int \<Rightarrow> bool" where
  "is_leap year = (year mod 4 = 0 \<and> (year mod 100 \<noteq> 0 \<or> year mod 400 = 0))"

definition days_before_year :: "int \<Rightarrow> int" where
  "days_before_year year = (let y = year - 1 in y * 365 + y div 4 - y div 100 + y div 400)"


definition days_before_month :: "int \<Rightarrow> int \<Rightarrow> int" where
  "days_before_month year month =
     [0, 0, 31, 59, 90, 120, 151, 181, 212, 243, 273, 304, 334] ! nat month
       + (if month > 2 \<and> is_leap year then 1 else 0)"

definition ymd2ord :: "int \<Rightarrow> int \<Rightarrow> int \<Rightarrow> int" where
  "ymd2ord year month day = days_before_year year + days_before_month year month + day"

definition toordinal :: "timestamp \<Rightarrow> int" where
  "toordinal ts = ymd2ord (ts_year ts) (ts_month ts) (ts_day ts)"


text \<open>Monday is 0, Sunday is 6.\<close>

definition dayofweek :: "timestamp \<Rightarrow> int" where
  "dayofweek ts = (toordinal ts + 6) mod 7"

definition isoweek1monday :: "int \<Rightarrow> int" where
  "isoweek1monday year =
     (let firstday = ymd2ord year 1 1;
          firstweekday = (firstday + 6) mod 7;
          week1monday = firstday - firstweekday
      in if firstweekday > 3 then week1monday + 7 else week1monday)"

text \<open>\<open>isocalendar\<close> returns the ISO year and the ISO week number.\<close>

definition isocalendar :: "timestamp \<Rightarrow> int \<times> int" where
  "isocalendar ts =
     (let year = ts_year ts;
          today = toordinal ts;
          week = (today - isoweek1monday year) div 7
      in if week < 0 then (year - 1, (today - isoweek1monday (year - 1)) div 7 + 1)
         else if week \<ge> 52 \<and> today \<ge> isoweek1monday (year + 1) then (year + 1, 1)
         else (year, week + 1))"

text \<open>Python's \<open>str\<close> of an integer.\<close>

fun str_nat :: "nat \<Rightarrow> string" where
  "str_nat n = (if n < 10 then [''0123456789'' ! n]
                else str_nat (n div 10) @ [''0123456789'' ! (n mod 10)])"

declare str_nat.simps [simp del]

definition str_int :: "int \<Rightarrow> string" where
  "str_int i = (if i < 0 then CHR ''-'' # str_nat (nat (- i)) else str_nat (nat i))"

text \<open>The \<open>%02d\<close> of \<open>%m\<close> and \<open>%V\<close>.\<close>

definition zero_pad2 :: "int \<Rightarrow> string" where
  "zero_pad2 i = (if 0 \<le> i \<and> i < 10 then CHR ''0'' # str_int i else str_int i)"

definition strftime_G_W_V :: "timestamp \<Rightarrow> string" where
  "strftime_G_W_V ts = (case isocalendar ts of (y, w) \<Rightarrow> str_int y @ ''-W'' @ zero_pad2 w)"

definition strftime_Y_m :: "timestamp \<Rightarrow> string" where
  "strftime_Y_m ts = str_int (ts_year ts) @ ''-'' @ zero_pad2 (ts_month ts)"

definition strftime_B :: "timestamp \<Rightarrow> string" where
  "strftime_B ts =
     [[], ''January'', ''February'', ''March'', ''April'', ''May'', ''June'', ''July'',
      ''August'', ''September'', ''October'', ''November'', ''December''] ! nat (ts_month ts)"

definition strftime_A :: "timestamp \<Rightarrow> string" where
  "strftime_A ts =
     [''Monday'', ''Tuesday'', ''Wednesday'', ''Thursday'', ''Friday'', ''Saturday'',
      ''Sunday''] ! nat (dayofweek ts)"

definition quarter :: "timestamp \<Rightarrow> int" where
  "quarter ts = (ts_month ts - 1) div 3 + 1"

definition season :: "timestamp \<Rightarrow> string" where
  "season ts =
     [[], ''Winter'', ''Spring'', ''Summer'', ''Autumn''] ! nat ((ts_month ts mod 12 + 3) div 3)"

text \<open>
  A column of integers that has a missing value is a float column in pandas: its
  integers print with a trailing \<open>.0\<close> and its missing value prints as \<open>nan\<close>.
\<close>

definition int_cell :: "bool \<Rightarrow> int \<Rightarrow> cell" where
  "int_cell has_nat i = (if has_nat then Num (of_int i) else IntC i)"

definition astype_str :: "bool \<Rightarrow> int \<Rightarrow> string" where
  "astype_str has_nat i = (if has_nat then str_int i @ ''.0'' else str_int i)"

definition on_date :: "(timestamp \<Rightarrow> cell) \<Rightarrow> cell \<Rightarrow> row \<Rightarrow> cell" where
  "on_date f nat_value r = (case r ''Date'' of Some (DateC ts) \<Rightarrow> f ts | _ \<Rightarrow> nat_value)"

definition datetimelike :: "dataframe \<Rightarrow> bool" where
  "datetimelike data =
     list_all (\<lambda>r. case r ''Date'' of Some (DateC ts) \<Rightarrow> True | Some Null \<Rightarrow> True | _ \<Rightarrow> False)
       (rows data)"

definition load_and_transform_data_from_source_add_additional_columns_from_date ::
  "dataframe \<Rightarrow> error + dataframe" where
  "load_and_transform_data_from_source_add_additional_columns_from_date original =
     (let data = original in
      if ''Date'' \<notin> set (columns data) then Inr data
      else if \<not> datetimelike data
        then Inl (AttributeError ''Can only use .dt accessor with datetimelike values'')
      else
        let has_nat = list_ex (\<lambda>r. isna (r ''Date'')) (rows data);
            data = set_column ''Year'' (on_date (\<lambda>ts. int_cell has_nat (ts_year ts)) Null) data;
            data = set_column ''QuarterNumber''
                     (on_date (\<lambda>ts. int_cell has_nat (quarter ts)) Null) data;
            data = set_column ''Quarter''
                     (on_date (\<lambda>ts. Str (astype_str has_nat (ts_year ts) @ ''-Q''
                                          @ astype_str has_nat (quarter ts)))
                        (Str ''nan-Qnan'')) data;
            data = set_column ''Season'' (on_date (\<lambda>ts. Str (season ts)) Null) data;
            data = set_column ''Month'' (on_date (\<lambda>ts. Str (strftime_Y_m ts)) Null) data;
            data = set_column ''MonthName'' (on_date (\<lambda>ts. Str (strftime_B ts)) Null) data;
            data = set_column ''DayOfMonth''
                     (on_date (\<lambda>ts. int_cell has_nat (ts_day ts)) Null) data;
            data = set_column ''Week'' (on_date (\<lambda>ts. Str (strftime_G_W_V ts)) Null) data;
            data = set_column ''WeekNumber''
                     (on_date (\<lambda>ts. IntC (snd (isocalendar ts))) Null) data;
            data = set_column ''Weekday'' (on_date (\<lambda>ts. Str (strftime_A ts)) Null) data;
            data = set_column ''IsWeekend''
                     (on_date (\<lambda>ts. BoolC (dayofweek ts \<in> {5, 6})) (BoolC False)) data
        in Inr data)"


section \<open>Amount Classifier\<close>

text \<open>\<open>x > 0\<close> on a cell: a missing value compares false, text and dates do not compare.\<close>

definition compares_with_zero :: "cell option \<Rightarrow> bool" where
  "compares_with_zero v = (case v of Some (Str s) \<Rightarrow> False | Some (DateC ts) \<Rightarrow> False | _ \<Rightarrow> True)"

definition gt_zero :: "cell option \<Rightarrow> bool" where
  "gt_zero v = (case v of Some (Num x) \<Rightarrow> x > 0 | Some (IntC i) \<Rightarrow> i > 0
                | Some (BoolC b) \<Rightarrow> b | _ \<Rightarrow> False)"

definition load_and_transform_data_from_source_add_additional_columns_from_amount ::
  "dataframe \<Rightarrow> error + dataframe" where
  "load_and_transform_data_from_source_add_additional_columns_from_amount original =
     (let data = original in
      if ''Amount'' \<notin> set (columns data) then Inr data
      else if \<not> list_all (\<lambda>x. compares_with_zero (x ''Amount'')) (rows data)
        then Inl (TypeError ''> not supported between these instances'')
      else Inr (set_column ''Type''
                  (\<lambda>x. Str (if gt_zero (x ''Amount'') then ''Income'' else ''Expense'')) data))"

section \<open>Cleaner\<close>

text \<open>
  A Python string is a sequence of code points. The model's strings hold the code points
  below 256; on these, \<open>str.strip\<close> removes the characters for which \<open>str.isspace\<close>
  holds, \<open>\d\<close> matches the ten ASCII digits, and \<open>str.lower\<close> moves the ASCII and the
  Latin-1 capital letters to their small letters.
\<close>

definition isspace :: "char \<Rightarrow> bool" where
  "isspace c = (of_char c \<in> {9, 10, 11, 12, 13, 28, 29, 30, 31, 32, 133, 160 :: nat})"

definition is_ascii_letter :: "char \<Rightarrow> bool" where
  "is_ascii_letter c = (let n = of_char c :: nat in (65 \<le> n \<and> n \<le> 90) \<or> (97 \<le> n \<and> n \<le> 122))"

definition is_digit :: "char \<Rightarrow> bool" where
  "is_digit c = (let n = of_char c :: nat in 48 \<le> n \<and> n \<le> 57)"

definition lower_char :: "char \<Rightarrow> char" where
  "lower_char c =
     (let n = of_char c :: nat
      in if (65 \<le> n \<and> n \<le> 90) \<or> (192 \<le> n \<and> n \<le> 222 \<and> n \<noteq> 215)
         then char_of (n + 32) else c)"

definition str_strip :: "string \<Rightarrow> string" where
  "str_strip s = rev (dropWhile isspace (rev (dropWhile isspace s)))"

definition str_lower :: "string \<Rightarrow> string" where
  "str_lower s = map lower_char s"

text \<open>
  The pattern \<open>[A-Za-z]?\/\d{2}-\d{2}-\d{2}\<close>. \<open>slash_date s\<close> says that \<open>s\<close> starts with
  the slash and the three groups of two digits; \<open>match_length s\<close> is the length of the
  match that starts at the head of \<open>s\<close>, if there is one.
\<close>

fun slash_date :: "string \<Rightarrow> bool" where
  "slash_date (c0 # d1 # d2 # h1 # d3 # d4 # h2 # d5 # d6 # rest) =
     (c0 = CHR ''/'' \<and> is_digit d1 \<and> is_digit d2 \<and> h1 = CHR ''-'' \<and> is_digit d3 \<and> is_digit d4
      \<and> h2 = CHR ''-'' \<and> is_digit d5 \<and> is_digit d6)"
| "slash_date s = False"

fun match_length :: "string \<Rightarrow> nat option" where
  "match_length [] = None"
| "match_length (c # cs) =
     (if is_ascii_letter c \<and> slash_date cs then Some 10
      else if slash_date (c # cs) then Some 9
      else None)"

text \<open>
  \<open>re.sub(regex, "", x)\<close>: scan from the left; a match is dropped and the scan goes on
  behind it, any other character is kept.
\<close>

fun re_sub :: "string \<Rightarrow> string" where
  "re_sub [] = []"
| "re_sub (c # cs) =
     (case match_length (c # cs) of
        Some n \<Rightarrow> re_sub (drop (n - 1) cs)
      | None \<Rightarrow> c # re_sub cs)"

text \<open>The three assignments to \<open>data["Text"]\<close>, on one cell.\<close>

definition clean_text :: "string \<Rightarrow> string" where
  "clean_text x = str_lower (str_strip (re_sub (str_strip x)))"

text \<open>\<open>has_match s\<close>: the pattern matches somewhere in \<open>s\<close>.\<close>

fun has_match :: "string \<Rightarrow> bool" where
  "has_match [] = False"
| "has_match (c # cs) = (match_length (c # cs) \<noteq> None \<or> has_match cs)"

definition is_str :: "cell option \<Rightarrow> bool" where
  "is_str v = (case v of Some (Str s) \<Rightarrow> True | _ \<Rightarrow> False)"

definition dropna :: "string \<Rightarrow> dataframe \<Rightarrow> error + dataframe" where
  "dropna label data =
     (if label \<notin> set (columns data) then Inl (KeyError (JArr [JStr label]))
      else Inr (data\<lparr>rows := filter (\<lambda>r. \<not> isna (r label)) (rows data)\<rparr>))"

text \<open>
  \<open>.str\<close> needs a column of text; on a column that holds text and other values the
  other values reach \<open>re.sub\<close>, which does not accept them.
\<close>

definition load_and_transform_data_from_source_clean_data :: "dataframe \<Rightarrow> error + dataframe" where
  "load_and_transform_data_from_source_clean_data original =
     (let data = original in
      and_then (dropna ''Date'' data) (\<lambda>data.
      and_then (dropna ''Amount'' data) (\<lambda>data.
      if ''Text'' \<in> set (columns data) then
        if list_all (\<lambda>r. is_str (r ''Text'')) (rows data)
        then Inr (set_column ''Text''
                    (\<lambda>r. case r ''Text'' of Some (Str x) \<Rightarrow> Str (clean_text x) | _ \<Rightarrow> Null) data)
        else if list_ex (\<lambda>r. is_str (r ''Text'')) (rows data)
        then Inl (TypeError ''expected string or bytes-like object'')
        else Inl (AttributeError ''Can only use .str accessor with string values'')
      else Inr data)))"

section \<open>Per-source pipeline\<close>

text \<open>
  The categorization rules are a JSON object read in order: a list of category names
  with their keyword lists. \<open>source_types\<close> maps the name of a source type to its
  dictionary.
\<close>

type_synonym categorization_rules = "(string \<times> string list) list"

text \<open>\<open>source_types[key]\<close>: the keys of a JSON object are strings.\<close>

definition getitem_source_types :: "(string \<rightharpoonup> pydict) \<Rightarrow> json \<Rightarrow> error + pydict" where
  "getitem_source_types source_types key =
     (case key of
        JStr t \<Rightarrow> (case source_types t of Some st \<Rightarrow> Inr st | None \<Rightarrow> Inl (KeyError (JStr t)))
      | JArr a \<Rightarrow> Inl (TypeError ''unhashable type: list'')
      | JObj a \<Rightarrow> Inl (TypeError ''unhashable type: dict'')
      | k \<Rightarrow> Inl (KeyError k))"

definition lookup_source_type :: "pydict \<Rightarrow> (string \<rightharpoonup> pydict) \<Rightarrow> error + pydict" where
  "lookup_source_type source source_types =
     (case source ''type'' of
        None \<Rightarrow> Inl (KeyError (JStr ''type''))
      | Some key \<Rightarrow> getitem_source_types source_types key)"

definition endswith :: "string \<Rightarrow> string \<Rightarrow> bool" where
  "endswith s ending = (length ending \<le> length s \<and> drop (length s - length ending) s = ending)"

text \<open>
  Lines 126 to 143 read the file, rename and select its columns and convert the dates.
  The table they leave in \<open>data\<close> is the parameter \<open>mapped\<close> of the pipeline; of these
  lines the model keeps the checks on the configuration.
\<close>

definition check_path :: "pydict \<Rightarrow> error + unit" where
  "check_path source =
     (case source ''path'' of
        Some (JStr p) \<Rightarrow>
          if endswith p ''.csv'' then Inr ()
          else if endswith p ''.xlsx'' then Inr ()
          else Inl (ValueError ''Unsupported file format'')
      | _ \<Rightarrow> Inl (AttributeError ''object has no attribute endswith''))"

text \<open>\<open>data['Amount'] * source['modifier']\<close>.\<close>

definition modifier_factor :: "json \<Rightarrow> real option" where
  "modifier_factor j = (case j of JNum m \<Rightarrow> Some m | JBool b \<Rightarrow> Some (if b then 1 else 0)
                         | _ \<Rightarrow> None)"

definition times_factor :: "real \<Rightarrow> cell option \<Rightarrow> cell" where
  "times_factor m v =
     (case v of Some (Num x) \<Rightarrow> Num (x * m) | Some (IntC i) \<Rightarrow> Num (of_int i * m)
      | Some (BoolC b) \<Rightarrow> Num ((if b then 1 else 0) * m) | _ \<Rightarrow> Null)"

definition apply_modifier :: "pydict \<Rightarrow> dataframe \<Rightarrow> error + dataframe" where
  "apply_modifier source data =
     (if ''Amount'' \<notin> set (columns data) then Inl (KeyError (JStr ''Amount''))
      else case source ''modifier'' of
        None \<Rightarrow> Inl (KeyError (JStr ''modifier''))
      | Some j \<Rightarrow>
         (case modifier_factor j of
            None \<Rightarrow> Inl (TypeError ''unsupported operand type(s) for *'')
          | Some m \<Rightarrow>
              if \<not> list_all (\<lambda>r. compares_with_zero (r ''Amount'')) (rows data)
              then Inl (TypeError ''unsupported operand type(s) for *'')
              else Inr (set_column ''Amount'' (\<lambda>r. times_factor m (r ''Amount'')) data)))"

text \<open>\<open>value[key]\<close> with a string key.\<close>

definition subscript :: "json \<Rightarrow> string \<Rightarrow> error + json" where
  "subscript v key =
     (case v of
        JObj kvs \<Rightarrow> (case map_of kvs key of Some x \<Rightarrow> Inr x | None \<Rightarrow> Inl (KeyError (JStr key)))
      | JStr s \<Rightarrow> Inl (TypeError ''string indices must be integers'')
      | JArr a \<Rightarrow> Inl (TypeError ''list indices must be integers or slices'')
      | _ \<Rightarrow> Inl (TypeError ''object is not subscriptable''))"

text \<open>
  \<open>source_types[source['type'][bound]]\<close>, the right-hand side of the comparison in lines
  158 and 160: the subscript is applied to the name of the source type, and its result
  is the key looked up in \<open>source_types\<close>.
\<close>

definition amount_bound :: "pydict \<Rightarrow> (string \<rightharpoonup> pydict) \<Rightarrow> string \<Rightarrow> error + pydict" where
  "amount_bound source source_types bound =
     (case source ''type'' of
        None \<Rightarrow> Inl (KeyError (JStr ''type''))
      | Some t \<Rightarrow>
         (case subscript t bound of
            Inl e \<Rightarrow> Inl e
          | Inr key \<Rightarrow> getitem_source_types source_types key))"

text \<open>A table column compared with a dictionary raises.\<close>

definition filter_by_bound ::
  "pydict \<Rightarrow> (string \<rightharpoonup> pydict) \<Rightarrow> string \<Rightarrow> dataframe \<Rightarrow> error + dataframe" where
  "filter_by_bound source source_types bound data =
     (case lookup_source_type source source_types of
        Inl e \<Rightarrow> Inl e
      | Inr source_type \<Rightarrow>
          if source_type bound \<noteq> None then
            if ''Amount'' \<notin> set (columns data) then Inl (KeyError (JStr ''Amount''))
            else (case amount_bound source source_types bound of
                    Inl e \<Rightarrow> Inl e
                  | Inr d \<Rightarrow> Inl (TypeError ''comparison not supported between a number and a dict''))
          else Inr data)"

definition filter_amounts :: "pydict \<Rightarrow> (string \<rightharpoonup> pydict) \<Rightarrow> dataframe \<Rightarrow> error + dataframe" where
  "filter_amounts source source_types data =
     (case filter_by_bound source source_types ''minAmount'' data of
        Inl e \<Rightarrow> Inl e
      | Inr data \<Rightarrow> filter_by_bound source source_types ''maxAmount'' data)"

text \<open>\<open>keyword in text\<close>.\<close>

fun contains :: "string \<Rightarrow> string \<Rightarrow> bool" where
  "contains keyword [] = (keyword = [])"
| "contains keyword (c # cs) = (take (length keyword) (c # cs) = keyword \<or> contains keyword cs)"

text \<open>
  The loop over the keywords of one category, for one row: \<open>True\<close> when a keyword is in
  the row's Text, which is when the category is written to the table and the loop is
  left.
\<close>

fun scan_keywords :: "cell option \<Rightarrow> string list \<Rightarrow> error + bool" where
  "scan_keywords text [] = Inr False"
| "scan_keywords text (keyword # keywords) =
     (case text of
        Some (Str t) \<Rightarrow> if contains keyword t then Inr True else scan_keywords text keywords
      | _ \<Rightarrow> Inl (TypeError ''argument is not iterable''))"

text \<open>
  The loop over the categories, for one row. \<open>row\<close> is the copy of the row that
  \<open>iterrows\<close> made when the loop over the rows began; the categories are written to
  \<open>data\<close>, not to \<open>row\<close>. So \<open>'Category' in row\<close> is the same for every row and every
  category: \<open>category_in_row\<close> says whether the table had a Category column before the
  loop. \<open>assigned\<close> is the category written to the table for this row so far.
\<close>

fun scan_categories ::
  "bool \<Rightarrow> cell option \<Rightarrow> categorization_rules \<Rightarrow> string option \<Rightarrow> error + string option" where
  "scan_categories category_in_row text [] assigned = Inr assigned"
| "scan_categories category_in_row text ((category, keywords) # rest) assigned =
     (case scan_keywords text keywords of
        Inl e \<Rightarrow> Inl e
      | Inr found \<Rightarrow>
          let assigned = (if found then Some category else assigned)
          in if category_in_row then Inr assigned
             else scan_categories category_in_row text rest assigned)"

fun categorize_rows ::
  "bool \<Rightarrow> categorization_rules \<Rightarrow> row list \<Rightarrow> error + string option list" where
  "categorize_rows category_in_row categorizations [] = Inr []"
| "categorize_rows category_in_row categorizations (row # rest) =
     (case scan_categories category_in_row (row ''Text'') categorizations None of
        Inl e \<Rightarrow> Inl e
      | Inr assigned \<Rightarrow>
         (case categorize_rows category_in_row categorizations rest of
            Inl e \<Rightarrow> Inl e
          | Inr others \<Rightarrow> Inr (assigned # others)))"

text \<open>
  The first \<open>data.at[index, 'Category'] = category\<close> on a table without a Category
  column makes the column, with a missing value in the other rows.
\<close>

definition apply_categories :: "categorization_rules \<Rightarrow> dataframe \<Rightarrow> error + dataframe" where
  "apply_categories categorizations data =
     (if ''Text'' \<notin> set (columns data) then Inr data
      else
        let category_in_row = (''Category'' \<in> set (columns data)) in
        case categorize_rows category_in_row categorizations (rows data) of
          Inl e \<Rightarrow> Inl e
        | Inr assigned \<Rightarrow>
            if list_all (\<lambda>a. a = None) assigned then Inr data
            else Inr \<lparr>columns = (if category_in_row then columns data
                                 else columns data @ [''Category'']),
                      rows = map2 (\<lambda>row a. case a of
                                     Some category \<Rightarrow> row(''Category'' \<mapsto> Str category)
                                   | None \<Rightarrow> if category_in_row then row
                                             else row(''Category'' \<mapsto> Null))
                               (rows data) assigned\<rparr>)"

definition add_uncategorized :: "dataframe \<Rightarrow> error + dataframe" where
  "add_uncategorized data =
     (if ''Category'' \<notin> set (columns data) then Inl (KeyError (JStr ''Category''))
      else Inr (set_column ''Category''
                  (\<lambda>r. case r ''Category'' of None \<Rightarrow> Str ''Uncategorized''
                        | Some Null \<Rightarrow> Str ''Uncategorized'' | Some v \<Rightarrow> v) data))"

text \<open>\<open>data.loc[data['Category'] == category, 'Type'] = ty\<close>.\<close>

definition set_type_where_category :: "string \<Rightarrow> string \<Rightarrow> dataframe \<Rightarrow> error + dataframe" where
  "set_type_where_category category ty data =
     (if ''Category'' \<notin> set (columns data) then Inl (KeyError (JStr ''Category''))
      else Inr \<lparr>columns = (if ''Type'' \<in> set (columns data) then columns data
                           else columns data @ [''Type'']),
                rows = map (\<lambda>r. if r ''Category'' = Some (Str category) then r(''Type'' \<mapsto> Str ty)
                               else if r ''Type'' = None then r(''Type'' \<mapsto> Null) else r)
                         (rows data)\<rparr>)"

text \<open>
  \<open>data[f"Amount{category}"] = data.apply(lambda x: x['Amount'] if x['Category'] ==
  category else 0, axis=1)\<close>. The lambda reads Category in every row and Amount in the
  rows of the category.
\<close>

definition amount_column :: "string \<Rightarrow> dataframe \<Rightarrow> error + dataframe" where
  "amount_column category data =
     (if rows data \<noteq> [] \<and> ''Category'' \<notin> set (columns data)
        then Inl (KeyError (JStr ''Category''))
      else if ''Amount'' \<notin> set (columns data)
              \<and> list_ex (\<lambda>x. x ''Category'' = Some (Str category)) (rows data)
        then Inl (KeyError (JStr ''Amount''))
      else Inr (set_column (''Amount'' @ category)
                  (\<lambda>x. if x ''Category'' = Some (Str category)
                       then (case x ''Amount'' of Some v \<Rightarrow> v | None \<Rightarrow> Null)
                       else Num 0) data))"

fun amount_columns :: "string list \<Rightarrow> dataframe \<Rightarrow> error + dataframe" where
  "amount_columns [] data = Inr data"
| "amount_columns (category # categories) data =
     (case amount_column category data of
        Inl e \<Rightarrow> Inl e
      | Inr data \<Rightarrow> amount_columns categories data)"

text \<open>The statement of \<open>load_and_transform_data_from_source\<close> that raised.\<close>

datatype stage =
    EnrichSource
  | LoadData
  | RenameColumns
  | AddColumnsFromDate
  | AddColumnsFromAmount
  | CleanData
  | ApplyModifier
  | FilterAmounts
  | ApplyCategories
  | AddUncategorized
  | SetTypes
  | AmountColumns

definition raised_in :: "stage \<Rightarrow> error + 'a \<Rightarrow> (stage \<times> error) + 'a" where
  "raised_in s r = (case r of Inl e \<Rightarrow> Inl (s, e) | Inr v \<Rightarrow> Inr v)"

definition load_and_transform_data_from_source ::
  "pydict \<Rightarrow> (string \<rightharpoonup> pydict) \<Rightarrow> categorization_rules \<Rightarrow> dataframe
     \<Rightarrow> (stage \<times> error) + dataframe" where
  "load_and_transform_data_from_source original_source source_types categorizations mapped =
     and_then (raised_in EnrichSource
                 (load_and_transform_data_from_source_enrich_source original_source)) (\<lambda>source.
     and_then (raised_in EnrichSource (lookup_source_type source source_types)) (\<lambda>source_type.
     and_then (raised_in LoadData (check_path source)) (\<lambda>u.
     and_then (raised_in RenameColumns
                 (if source_type ''columns'' = None then Inl (KeyError (JStr ''columns''))
                  else Inr mapped)) (\<lambda>data.
     and_then (raised_in AddColumnsFromDate
                 (load_and_transform_data_from_source_add_additional_columns_from_date data)) (\<lambda>data.
     and_then (raised_in AddColumnsFromAmount
                 (load_and_transform_data_from_source_add_additional_columns_from_amount data)) (\<lambda>data.
     and_then (raised_in CleanData (load_and_transform_data_from_source_clean_data data)) (\<lambda>data.
     and_then (raised_in ApplyModifier (apply_modifier source data)) (\<lambda>data.
     and_then (raised_in FilterAmounts (filter_amounts source source_types data)) (\<lambda>data.
     and_then (raised_in ApplyCategories (apply_categories categorizations data)) (\<lambda>data.
     and_then (raised_in AddUncategorized (add_uncategorized data)) (\<lambda>data.
     and_then (raised_in SetTypes
                 (set_type_where_category ''Investments'' ''Investment'' data)) (\<lambda>data.
     and_then (raised_in SetTypes
                 (set_type_where_category ''Transfers'' ''Transfer'' data)) (\<lambda>data.
     raised_in AmountColumns
       (amount_columns (map fst categorizations @ [''Uncategorized'']) data))))))))))))))"

text \<open>The number in a numeric cell, as a sum of a column reads it.\<close>

definition cell_number :: "cell option \<Rightarrow> real" where
  "cell_number v = (case v of Some (Num x) \<Rightarrow> x | Some (IntC i) \<Rightarrow> of_int i
                     | Some (BoolC b) \<Rightarrow> (if b then 1 else 0) | _ \<Rightarrow> 0)"

text \<open>
  Two readings of the rules, for the statements about the category loop:
  \<open>first_matching_category\<close> is the first category in the order of the rules that has a
  keyword in the text, \<open>last_matching_category\<close> the last one; both are
  \<open>Uncategorized\<close> when no keyword is in the text.
\<close>

definition has_keyword_in :: "string \<Rightarrow> string \<times> string list \<Rightarrow> bool" where
  "has_keyword_in text rule = list_ex (\<lambda>keyword. contains keyword text) (snd rule)"

definition first_matching_category :: "categorization_rules \<Rightarrow> string \<Rightarrow> string" where
  "first_matching_category categorizations text =
     (case find (has_keyword_in text) categorizations of
        Some rule \<Rightarrow> fst rule | None \<Rightarrow> ''Uncategorized'')"

definition last_matching_category :: "categorization_rules \<Rightarrow> string \<Rightarrow> string" where
  "last_matching_category categorizations text =
     (case find (has_keyword_in text) (rev categorizations) of
        Some rule \<Rightarrow> fst rule | None \<Rightarrow> ''Uncategorized'')"

text \<open>The factor of the modifier step, read from the source as it was given.\<close>

definition source_factor :: "pydict \<Rightarrow> real option" where
  "source_factor source =
     (case source ''modifier'' of None \<Rightarrow> Some 1 | Some j \<Rightarrow> modifier_factor j)"

text \<open>The rows that the Cleaner keeps.\<close>

definition has_date_and_amount :: "row \<Rightarrow> bool" where
  "has_date_and_amount r = (\<not> isna (r ''Date'') \<and> \<not> isna (r ''Amount''))"

section \<open>Example inputs\<close>

text \<open>
  A source of type \<open>bank\<close>, its source type without and with a lower bound on the
  amounts, a statement of three transactions as the schema mapping leaves it, the same
  kind of statement without the amounts, and two rule maps.
\<close>

definition bank_source :: pydict where
  "bank_source = [''path'' \<mapsto> JStr ''bank.csv'', ''type'' \<mapsto> JStr ''bank'']"

definition bank_columns :: json where
  "bank_columns = JObj [(''Datum'', JStr ''Date''), (''Text'', JStr ''Text''),
                        (''Belopp'', JStr ''Amount'')]"

definition bank_source_types :: "string \<rightharpoonup> pydict" where
  "bank_source_types = [''bank'' \<mapsto> [''columns'' \<mapsto> bank_columns]]"

definition bounded_source_types :: "string \<rightharpoonup> pydict" where
  "bounded_source_types =
     [''bank'' \<mapsto> [''columns'' \<mapsto> bank_columns, ''minAmount'' \<mapsto> JNum (- 1000)]]"

definition statement :: dataframe where
  "statement =
     \<lparr>columns = [''Date'', ''Text'', ''Amount''],
      rows = [[''Date'' \<mapsto> DateC (Timestamp 2024 5 5), ''Text'' \<mapsto> Str ''NETFLIX.COM M/24-05-05'',
               ''Amount'' \<mapsto> Num (- 109)],
              [''Date'' \<mapsto> DateC (Timestamp 2024 5 6), ''Text'' \<mapsto> Str ''ICA SWISH'',
               ''Amount'' \<mapsto> Num (- 50)],
              [''Date'' \<mapsto> DateC (Timestamp 2024 5 7), ''Text'' \<mapsto> Str ''AVANZA'',
               ''Amount'' \<mapsto> Num 500]]\<rparr>"

definition statement_without_amount :: dataframe where
  "statement_without_amount =
     \<lparr>columns = [''Date'', ''Text''],
      rows = [[''Date'' \<mapsto> DateC (Timestamp 2024 5 6), ''Text'' \<mapsto> Str ''ICA SWISH'']]\<rparr>"

definition spending_rules :: categorization_rules where
  "spending_rules =
     [(''Subscriptions'', [''netflix'']), (''Groceries'', [''ica'']),
      (''Transfers'', [''swish'']), (''Investments'', [''avanza''])]"

definition rules_with_empty_name :: categorization_rules where
  "rules_with_empty_name = [(''Groceries'', [''ica'']), ([], [''cash''])]"

section \<open>Properties\<close>

subsection \<open>Source Normalizer\<close>

text \<open>
  C9. The Source Normalizer fails exactly when the descriptor lacks \<open>path\<close> or lacks
  \<open>type\<close>. Otherwise it returns a descriptor in which every field that was present keeps
  its value, \<open>modifier\<close> is 1.0 when it was absent, \<open>account\<close> is \<open>Default\<close> when it was
  absent, and no other field is added.
\<close>

theorem enrich_source_spec:
  "((\<exists>e. load_and_transform_data_from_source_enrich_source s = Inl e)
      \<longleftrightarrow> (''path'' \<notin> dom s \<or> ''type'' \<notin> dom s))
   \<and> (''path'' \<in> dom s \<and> ''type'' \<in> dom s \<longrightarrow>
        (\<exists>s'. load_and_transform_data_from_source_enrich_source s = Inr s'
           \<and> (\<forall>k v. s k = Some v \<longrightarrow> s' k = Some v)
           \<and> (s ''modifier'' = None \<longrightarrow> s' ''modifier'' = Some (JNum 1))
           \<and> (s ''account'' = None \<longrightarrow> s' ''account'' = Some (JStr ''Default''))
           \<and> dom s' = dom s \<union> {''modifier'', ''account''}))"
  by (auto simp: load_and_transform_data_from_source_enrich_source_def Let_def domIff
           split: if_splits)

theorem enrich_source_spec_witness:
  "''path'' \<in> dom [''path'' \<mapsto> JStr ''bank.csv'', ''type'' \<mapsto> JStr ''bank'']
   \<and> ''type'' \<in> dom [''path'' \<mapsto> JStr ''bank.csv'', ''type'' \<mapsto> JStr ''bank'']
   \<and> (\<exists>s'. load_and_transform_data_from_source_enrich_source
               [''path'' \<mapsto> JStr ''bank.csv'', ''type'' \<mapsto> JStr ''bank''] = Inr s'
          \<and> s' ''path'' = Some (JStr ''bank.csv'')
          \<and> s' ''modifier'' = Some (JNum 1)
          \<and> s' ''account'' = Some (JStr ''Default''))"
  using enrich_source_spec[of "[''path'' \<mapsto> JStr ''bank.csv'', ''type'' \<mapsto> JStr ''bank'']"]
  by auto

subsection \<open>Calendar Enricher\<close>
















lemma rows_set_column [simp]: "rows (set_column c f d) = map (\<lambda>r. r(c \<mapsto> f r)) (rows d)"
  by (simp add: set_column_def)




subsection \<open>Cleaner\<close>

lemma of_char_bound: "(of_char c :: nat) < 256"
  by (rule nat_of_char_less_256)

lemma lower_char_code:
  "(of_char (lower_char c) :: nat) =
     (let n = of_char c :: nat
      in if (65 \<le> n \<and> n \<le> 90) \<or> (192 \<le> n \<and> n \<le> 222 \<and> n \<noteq> 215) then n + 32 else n)"
  using of_char_bound[of c] by (auto simp: lower_char_def Let_def)

lemma isspace_lower [simp]: "isspace (lower_char c) = isspace c"
  unfolding isspace_def lower_char_code Let_def by auto

lemma is_digit_lower [simp]: "is_digit (lower_char c) = is_digit c"
  unfolding is_digit_def lower_char_code Let_def by auto

lemma is_ascii_letter_lower [simp]: "is_ascii_letter (lower_char c) = is_ascii_letter c"
  unfolding is_ascii_letter_def lower_char_code Let_def by auto

lemma char_eq_code: "(c = d) = ((of_char c :: nat) = of_char d)"
  by (metis of_char_eq_iff)

lemma lower_char_slash [simp]: "(lower_char c = CHR ''/'') = (c = CHR ''/'')"
  unfolding char_eq_code[of _ "CHR ''/''"] lower_char_code Let_def by auto

lemma lower_char_dash [simp]: "(lower_char c = CHR ''-'') = (c = CHR ''-'')"
  unfolding char_eq_code[of _ "CHR ''-''"] lower_char_code Let_def by auto

lemma lower_char_idem [simp]: "lower_char (lower_char c) = lower_char c"
  unfolding char_eq_code[of "lower_char (lower_char c)"] 
  by (subst lower_char_code) (auto simp: lower_char_code Let_def)

lemma clean_text_examples: "clean_text ''/12-3/11-22-334-56'' = ''/12-34-56''" "clean_text ''/12-34-56'' = []"
  by (simp_all add: clean_text_def str_strip_def str_lower_def isspace_def is_digit_def is_ascii_letter_def lower_char_def)

lemma slash_date_lower [simp]: "slash_date (map lower_char s) = slash_date s"
  by (induction s rule: slash_date.induct) simp_all

lemma match_length_lower [simp]: "match_length (map lower_char s) = match_length s"
proof (cases s)
  case (Cons c cs)
  have "slash_date (lower_char c # map lower_char cs) = slash_date (c # cs)"
    using slash_date_lower[of "c # cs"] by simp
  then show ?thesis using Cons by simp
qed simp

lemma has_match_lower [simp]: "has_match (map lower_char s) = has_match s"
proof (induction s)
  case (Cons c cs)
  have "match_length (lower_char c # map lower_char cs) = match_length (c # cs)"
    using match_length_lower[of "c # cs"] by simp
  then show ?case using Cons by simp
qed simp

lemma dropWhile_isspace_lower: "dropWhile isspace (map lower_char s) = map lower_char (dropWhile isspace s)"
  by (induction s) simp_all

lemma str_strip_lower: "str_strip (str_lower s) = str_lower (str_strip s)"
  by (simp add: str_strip_def str_lower_def dropWhile_isspace_lower rev_map)

lemma str_lower_idem: "str_lower (str_lower s) = str_lower s"
  by (simp add: str_lower_def)

lemma dropWhile_id: "s = [] \<or> \<not> P (hd s) \<Longrightarrow> dropWhile P s = s"
  by (cases s) auto

lemma dropWhile_head: "dropWhile P s = [] \<or> \<not> P (hd (dropWhile P s))"
  by (metis hd_dropWhile)

lemma str_strip_ends:
  "str_strip s = [] \<or> (\<not> isspace (hd (str_strip s)) \<and> \<not> isspace (last (str_strip s)))"
proof (cases "str_strip s = []")
  case False
  define t where "t = dropWhile isspace s"
  define u where "u = dropWhile isspace (rev t)"
  have su: "str_strip s = rev u" by (simp add: str_strip_def t_def u_def)
  with False have un: "u \<noteq> []" by simp
  then have l: "\<not> isspace (hd u)" unfolding u_def by (metis hd_dropWhile)
  have tn: "t \<noteq> []" using un unfolding u_def by auto
  then have ht: "\<not> isspace (hd t)" unfolding t_def by (metis hd_dropWhile)
  obtain p where p: "rev t = p @ u" unfolding u_def by (metis takeWhile_dropWhile_id)
  then have "t = rev u @ rev p" by (metis rev_append rev_rev_ident)
  then have "hd t = hd (rev u)" using un by simp
  with ht l su un show ?thesis by (simp add: last_rev)
qed simp

lemma str_strip_stripped:
  assumes "s = [] \<or> (\<not> isspace (hd s) \<and> \<not> isspace (last s))"
  shows "str_strip s = s"
proof (cases "s = []")
  case True
  then show ?thesis by (simp add: str_strip_def)
next
  case False
  with assms have a: "\<not> isspace (hd s)" "\<not> isspace (last s)" by auto
  have 1: "dropWhile isspace s = s" using a(1) False by (intro dropWhile_id) simp
  have "hd (rev s) = last s" using False by (simp add: hd_rev)
  then have 2: "dropWhile isspace (rev s) = rev s" using a(2) by (intro dropWhile_id) simp
  show ?thesis by (simp add: str_strip_def 1 2)
qed

lemma str_strip_idem: "str_strip (str_strip s) = str_strip s"
  by (rule str_strip_stripped) (rule str_strip_ends)

lemma length_str_strip: "length (str_strip s) \<le> length s"
proof -
  have "length (dropWhile isspace (rev (dropWhile isspace s))) \<le> length (rev (dropWhile isspace s))"
    by (rule length_dropWhile_le)
  also have "\<dots> \<le> length s" by (simp add: length_dropWhile_le)
  finally show ?thesis by (simp add: str_strip_def)
qed

lemma match_length_pos: "match_length s = Some n \<Longrightarrow> n = 9 \<or> n = 10"
  by (cases s) (auto split: if_splits)

lemma re_sub_no_match: "\<not> has_match s \<Longrightarrow> re_sub s = s"
  by (induction s) (auto split: option.splits)

lemma length_re_sub: "length (re_sub s) \<le> length s"
proof (induction s rule: re_sub.induct)
  case 1
  show ?case by simp
next
  case (2 c cs)
  show ?case
  proof (cases "match_length (c # cs)")
    case None
    with 2 show ?thesis by simp
  next
    case (Some n)
    have "length (re_sub (drop (n - 1) cs)) \<le> length (drop (n - 1) cs)"
      using 2 Some by blast
    with Some show ?thesis by (simp del: match_length.simps)
  qed
qed

lemma re_sub_shrinks: "has_match s \<Longrightarrow> length (re_sub s) < length s"
proof (induction s)
  case (Cons c cs)
  show ?case
  proof (cases "match_length (c # cs)")
    case None
    with Cons show ?thesis by (simp del: match_length.simps)
  next
    case (Some n)
    have "length (re_sub (drop (n - 1) cs)) \<le> length cs"
      using length_re_sub[of "drop (n - 1) cs"] by simp
    with Some show ?thesis by (simp del: match_length.simps)
  qed
qed simp

text \<open>
  C4, as the code has it. Cleaning a cleaned text changes nothing exactly when the cleaned
  text holds no match of the pattern. Removing a match joins the characters on its two
  sides, and these can form a match that only a second cleaning removes.
\<close>

theorem clean_text_idempotent_iff:
  "clean_text (clean_text x) = clean_text x \<longleftrightarrow> \<not> has_match (clean_text x)"
proof -
  define z where "z = str_strip (re_sub (str_strip x))"
  define y where "y = clean_text x"
  have y: "y = str_lower z" by (simp add: y_def z_def clean_text_def)
  have sz: "str_strip z = z" unfolding z_def by (rule str_strip_idem)
  have sy: "str_strip y = y" unfolding y by (simp add: str_strip_lower sz)
  have c: "clean_text y = str_lower (str_strip (re_sub y))"
    by (simp add: clean_text_def sy)
  show ?thesis
  proof (cases "has_match y")
    case False
    then have "re_sub y = y" by (rule re_sub_no_match)
    then have "clean_text y = y" using c sy by (simp add: y str_lower_idem)
    with False show ?thesis by (simp add: y_def)
  next
    case True
    have "length (clean_text y) = length (str_strip (re_sub y))" by (simp add: c str_lower_def)
    also have "\<dots> \<le> length (re_sub y)" by (rule length_str_strip)
    also have "\<dots> < length y" using True by (rule re_sub_shrinks)
    finally have "clean_text y \<noteq> y" by auto
    with True show ?thesis by (simp add: y_def)
  qed
qed

theorem clean_text_idempotent_iff_witness:
  "\<not> has_match (clean_text ''NETFLIX.COM M/24-05-05'')
   \<and> clean_text (clean_text ''NETFLIX.COM M/24-05-05'') = clean_text ''NETFLIX.COM M/24-05-05''
   \<and> clean_text ''NETFLIX.COM M/24-05-05'' = ''netflix.com''"
proof -
  have e: "clean_text ''NETFLIX.COM M/24-05-05'' = ''netflix.com''"
    by (simp add: clean_text_def str_strip_def str_lower_def isspace_def is_digit_def
          is_ascii_letter_def lower_char_def char_of_eq_iff)
  have n: "\<not> has_match (clean_text ''NETFLIX.COM M/24-05-05'')"
    unfolding e by (simp add: is_digit_def is_ascii_letter_def)
  show ?thesis
    using clean_text_idempotent_iff[of "''NETFLIX.COM M/24-05-05''"] n e by simp
qed

text \<open>
  C4, as stated, fails: cleaning \<open>/12-3/11-22-334-56\<close> removes \<open>/11-22-33\<close> and leaves
  \<open>/12-34-56\<close>, which a second cleaning removes.
\<close>

theorem clean_text_not_idempotent:
  "clean_text (clean_text ''/12-3/11-22-334-56'') \<noteq> clean_text ''/12-3/11-22-334-56''"
  by (simp add: clean_text_examples)


subsection \<open>Per-source pipeline\<close>

lemma and_then_Inr: "and_then r f = Inr y \<longleftrightarrow> (\<exists>v. r = Inr v \<and> f v = Inr y)"
  by (cases r) (simp_all add: and_then_def)

lemma raised_in_Inr: "raised_in s r = Inr v \<longleftrightarrow> r = Inr v"
  by (cases r) (simp_all add: raised_in_def)

lemma pipeline_succeeds:
  assumes "load_and_transform_data_from_source src sts cz mapped = Inr out"
  obtains source st d1 d2 d3 d4 d5 d6 d7 d8 d9 where
    "load_and_transform_data_from_source_enrich_source src = Inr source"
    "lookup_source_type source sts = Inr st"
    "check_path source = Inr ()"
    "st ''columns'' \<noteq> None"
    "load_and_transform_data_from_source_add_additional_columns_from_date mapped = Inr d1"
    "load_and_transform_data_from_source_add_additional_columns_from_amount d1 = Inr d2"
    "load_and_transform_data_from_source_clean_data d2 = Inr d3"
    "apply_modifier source d3 = Inr d4"
    "filter_amounts source sts d4 = Inr d5"
    "apply_categories cz d5 = Inr d6"
    "add_uncategorized d6 = Inr d7"
    "set_type_where_category ''Investments'' ''Investment'' d7 = Inr d8"
    "set_type_where_category ''Transfers'' ''Transfer'' d8 = Inr d9"
    "amount_columns (map fst cz @ [''Uncategorized'']) d9 = Inr out"
  using assms unfolding load_and_transform_data_from_source_def and_then_Inr raised_in_Inr
  by (auto split: if_splits)

lemma list_all2_filter:
  assumes "list_all2 Q xs ys" "\<And>x y. Q x y \<Longrightarrow> p x = q y"
  shows "list_all2 Q (filter p xs) (filter q ys)"
  using assms by (induction rule: list_all2_induct) auto

lemma list_all2_map_self: "list_all2 Q xs (map f xs) \<longleftrightarrow> (\<forall>x\<in>set xs. Q x (f x))"
  by (simp add: list_all2_map2 list_all2_same)

lemma columns_set_column [simp]:
  "set (columns (set_column c f d)) = insert c (set (columns d))"
  by (auto simp: set_column_def)

lemma set_column_keeps:
  assumes "list_all2 (\<lambda>a b. \<forall>k\<in>K. b k = a k) xs (rows d1)" "c \<notin> K"
  shows "list_all2 (\<lambda>a b. \<forall>k\<in>K. b k = a k) xs (rows (set_column c f d1))"
proof -
  have "list_all2 (\<lambda>a b. \<forall>k\<in>K. (b(c \<mapsto> f b)) k = a k) xs (rows d1)"
    using assms(1) by (rule list_all2_mono) (use assms(2) in auto)
  then show ?thesis by (simp add: list_all2_map2)
qed

lemma add_date_result:
  assumes "load_and_transform_data_from_source_add_additional_columns_from_date d = Inr d'"
    and "''Date'' \<in> set (columns d)"
  shows "\<exists>f1 f2 f3 f4 f5 f6 f7 f8 f9 f10 f11. d' =
    set_column ''IsWeekend'' f11 (set_column ''Weekday'' f10 (set_column ''WeekNumber'' f9
   (set_column ''Week'' f8 (set_column ''DayOfMonth'' f7 (set_column ''MonthName'' f6
   (set_column ''Month'' f5 (set_column ''Season'' f4 (set_column ''Quarter'' f3
   (set_column ''QuarterNumber'' f2 (set_column ''Year'' f1 d))))))))))"
proof -
  have "datetimelike d" using assms
    by (simp add: load_and_transform_data_from_source_add_additional_columns_from_date_def split: if_splits)
  with assms have "d' = projr (load_and_transform_data_from_source_add_additional_columns_from_date d)"
    by simp
  then show ?thesis
    unfolding load_and_transform_data_from_source_add_additional_columns_from_date_def Let_def
    using assms(2) \<open>datetimelike d\<close> by (simp only: if_True if_False not_True_eq_False not_False_eq_True sum.sel) blast
qed

lemma add_date_columns:
  assumes "load_and_transform_data_from_source_add_additional_columns_from_date d = Inr d'"
  shows "(''Date'' \<in> set (columns d') \<longleftrightarrow> ''Date'' \<in> set (columns d))
       \<and> (''Amount'' \<in> set (columns d') \<longleftrightarrow> ''Amount'' \<in> set (columns d))
       \<and> (''Category'' \<in> set (columns d') \<longleftrightarrow> ''Category'' \<in> set (columns d))
       \<and> (''Text'' \<in> set (columns d') \<longleftrightarrow> ''Text'' \<in> set (columns d))"
proof (cases "''Date'' \<in> set (columns d)")
  case False
  with assms have "d' = d"
    by (simp add: load_and_transform_data_from_source_add_additional_columns_from_date_def)
  then show ?thesis by simp
next
  case True
  from add_date_result[OF assms True] obtain f1 f2 f3 f4 f5 f6 f7 f8 f9 f10 f11 where "d' =
    set_column ''IsWeekend'' f11 (set_column ''Weekday'' f10 (set_column ''WeekNumber'' f9
   (set_column ''Week'' f8 (set_column ''DayOfMonth'' f7 (set_column ''MonthName'' f6
   (set_column ''Month'' f5 (set_column ''Season'' f4 (set_column ''Quarter'' f3
   (set_column ''QuarterNumber'' f2 (set_column ''Year'' f1 d))))))))))" by blast
  then show ?thesis by simp
qed

lemma add_date_rows:
  assumes "load_and_transform_data_from_source_add_additional_columns_from_date d = Inr d'"
  shows "list_all2 (\<lambda>a b. \<forall>k\<in>{''Date'', ''Amount'', ''Category'', ''Text'', ''Type''}. b k = a k)
           (rows d) (rows d')"
proof (cases "''Date'' \<in> set (columns d)")
  case False
  with assms have "d' = d"
    by (simp add: load_and_transform_data_from_source_add_additional_columns_from_date_def)
  then show ?thesis by (simp add: list_all2_same)
next
  case True
  from add_date_result[OF assms True] obtain f1 f2 f3 f4 f5 f6 f7 f8 f9 f10 f11 where d': "d' =
    set_column ''IsWeekend'' f11 (set_column ''Weekday'' f10 (set_column ''WeekNumber'' f9
   (set_column ''Week'' f8 (set_column ''DayOfMonth'' f7 (set_column ''MonthName'' f6
   (set_column ''Month'' f5 (set_column ''Season'' f4 (set_column ''Quarter'' f3
   (set_column ''QuarterNumber'' f2 (set_column ''Year'' f1 d))))))))))" by blast
  have 0: "list_all2 (\<lambda>a b. \<forall>k\<in>{''Date'', ''Amount'', ''Category'', ''Text'', ''Type''}. b k = a k)
           (rows d) (rows d)"
    by (simp add: list_all2_same)
  show ?thesis unfolding d'
    by (intro set_column_keeps 0; simp)
qed

lemma add_amount_rows:
  assumes "load_and_transform_data_from_source_add_additional_columns_from_amount d = Inr d'"
    and "''Amount'' \<in> set (columns d)"
  shows "rows d' = map (\<lambda>x. x(''Type'' \<mapsto> Str (if gt_zero (x ''Amount'') then ''Income'' else ''Expense''))) (rows d)"
    and "set (columns d') = insert ''Type'' (set (columns d))"
    and "list_all (\<lambda>x. compares_with_zero (x ''Amount'')) (rows d)"
  using assms
  by (auto simp: load_and_transform_data_from_source_add_additional_columns_from_amount_def Let_def
        split: if_splits)

lemma add_amount_noop:
  assumes "load_and_transform_data_from_source_add_additional_columns_from_amount d = Inr d'"
    and "''Amount'' \<notin> set (columns d)"
  shows "d' = d"
  using assms
  by (auto simp: load_and_transform_data_from_source_add_additional_columns_from_amount_def)

lemma is_str_iff: "is_str v \<longleftrightarrow> (\<exists>s. v = Some (Str s))"
  by (auto simp: is_str_def split: option.splits cell.splits)

lemma dropna_Inr:
  "dropna c d = Inr d' \<longleftrightarrow> c \<in> set (columns d) \<and> d' = d\<lparr>rows := filter (\<lambda>r. \<not> isna (r c)) (rows d)\<rparr>"
  by (auto simp: dropna_def)

lemma clean_data_succeeds:
  assumes "load_and_transform_data_from_source_clean_data d = Inr d'"
  shows "''Date'' \<in> set (columns d)" "''Amount'' \<in> set (columns d)"
    "set (columns d') = set (columns d)"
    "list_all2 (\<lambda>a b. \<forall>c. c \<noteq> ''Text'' \<longrightarrow> b c = a c)
       (filter (\<lambda>r. \<not> isna (r ''Date'') \<and> \<not> isna (r ''Amount'')) (rows d)) (rows d')"
    "''Text'' \<in> set (columns d) \<Longrightarrow> list_all (\<lambda>r. is_str (r ''Text'')) (rows d')"
    "''Text'' \<in> set (columns d) \<Longrightarrow>
       list_all2 (\<lambda>a b. \<exists>x. a ''Text'' = Some (Str x) \<and> b ''Text'' = Some (Str (clean_text x)))
         (filter (\<lambda>r. \<not> isna (r ''Date'') \<and> \<not> isna (r ''Amount'')) (rows d)) (rows d')"
proof -
  define k where "k = d\<lparr>rows := filter (\<lambda>r. \<not> isna (r ''Date'') \<and> \<not> isna (r ''Amount'')) (rows d)\<rparr>"
  have 1: "''Date'' \<in> set (columns d) \<and> ''Amount'' \<in> set (columns d)"
    using assms
    by (auto simp: load_and_transform_data_from_source_clean_data_def dropna_def and_then_def split: if_splits)
  then show "''Date'' \<in> set (columns d)" "''Amount'' \<in> set (columns d)" by auto
  have 2: "d' = (if ''Text'' \<in> set (columns d)
                then set_column ''Text'' (\<lambda>r. case r ''Text'' of Some (Str x) \<Rightarrow> Str (clean_text x) | _ \<Rightarrow> Null) k
                else k)"
      and 3: "''Text'' \<in> set (columns d) \<longrightarrow> list_all (\<lambda>r. is_str (r ''Text'')) (rows k)"
    using assms 1 unfolding k_def
    by (auto simp: load_and_transform_data_from_source_clean_data_def dropna_def Let_def and_then_def split: if_splits)
  show "set (columns d') = set (columns d)" using 2 by (auto simp: k_def)
  show "list_all2 (\<lambda>a b. \<forall>c. c \<noteq> ''Text'' \<longrightarrow> b c = a c)
       (filter (\<lambda>r. \<not> isna (r ''Date'') \<and> \<not> isna (r ''Amount'')) (rows d)) (rows d')"
    using 2 by (auto simp: k_def list_all2_map_self list_all2_same)
  show "list_all (\<lambda>r. is_str (r ''Text'')) (rows d')" if "''Text'' \<in> set (columns d)"
  proof -
    have "is_str ((r(''Text'' \<mapsto> (case r ''Text'' of Some (Str x) \<Rightarrow> Str (clean_text x) | _ \<Rightarrow> Null))) ''Text'')"
      if "is_str (r ''Text'')" for r
      using that by (auto simp: is_str_iff)
    then show ?thesis using 2 3 that by (simp add: list_all_iff)
  qed
  show "list_all2 (\<lambda>a b. \<exists>x. a ''Text'' = Some (Str x) \<and> b ''Text'' = Some (Str (clean_text x)))
         (filter (\<lambda>r. \<not> isna (r ''Date'') \<and> \<not> isna (r ''Amount'')) (rows d)) (rows d')"
    if "''Text'' \<in> set (columns d)"
  proof -
    have "\<forall>r\<in>set (rows k). \<exists>x. r ''Text'' = Some (Str x)"
      using 3 that by (simp add: list_all_iff is_str_iff)
    then show ?thesis using 2 that by (auto simp: k_def list_all2_map_self)
  qed
qed

lemma apply_modifier_rows:
  assumes "apply_modifier source d = Inr d'"
  shows "\<exists>j m. source ''modifier'' = Some j \<and> modifier_factor j = Some m
           \<and> rows d' = map (\<lambda>r. r(''Amount'' \<mapsto> times_factor m (r ''Amount''))) (rows d)"
    and "set (columns d') = set (columns d)"
    and "list_all (\<lambda>r. compares_with_zero (r ''Amount'')) (rows d)"
  using assms
  by (auto simp: apply_modifier_def split: if_splits option.splits)

lemma times_factor_Num:
  assumes "compares_with_zero v" "\<not> isna v"
  obtains x where "times_factor m v = Num x"
  using assms
  by (auto simp: compares_with_zero_def isna_def times_factor_def split: option.splits cell.splits)

lemma filter_by_bound_Inr: "filter_by_bound source sts bound d = Inr d' \<Longrightarrow> d' = d"
  by (auto simp: filter_by_bound_def split: sum.splits if_splits)

lemma filter_amounts_Inr: "filter_amounts source sts d = Inr d' \<Longrightarrow> d' = d"
  by (auto simp: filter_amounts_def split: sum.splits dest: filter_by_bound_Inr)

lemma scan_categories_result:
  "scan_categories b t cz a = Inr r \<Longrightarrow> r = a \<or> r \<in> Some ` fst ` set cz"
proof (induction cz arbitrary: a)
  case Nil
  then show ?case by simp
next
  case (Cons p cz)
  obtain category kws where p: "p = (category, kws)" by (cases p)
  from Cons.prems obtain found where f: "scan_keywords t kws = Inr found"
    by (auto simp: p split: sum.splits)
  show ?case
  proof (cases b)
    case True
    with Cons.prems f show ?thesis by (auto simp: p split: if_splits)
  next
    case False
    with Cons.prems f have "scan_categories b t cz (if found then Some category else a) = Inr r"
      by (simp add: p)
    from Cons.IH[OF this] show ?thesis by (auto simp: p split: if_splits)
  qed
qed

lemma categorize_rows_result:
  "categorize_rows b cz xs = Inr as \<Longrightarrow>
     length as = length xs \<and> (\<forall>a\<in>set as. a = None \<or> a \<in> Some ` fst ` set cz)"
proof (induction xs arbitrary: as)
  case Nil
  then show ?case by simp
next
  case (Cons x xs)
  from Cons.prems obtain a others where
    a: "scan_categories b (x ''Text'') cz None = Inr a" and
    o: "categorize_rows b cz xs = Inr others" and as: "as = a # others"
    by (auto split: sum.splits)
  from scan_categories_result[OF a] Cons.IH[OF o] as show ?case by auto
qed

lemma list_all2_map2_self:
  assumes "length as = length xs" "\<And>i. i < length xs \<Longrightarrow> Q (xs ! i) (f (xs ! i) (as ! i))"
  shows "list_all2 Q xs (map2 f xs as)"
  using assms by (simp add: list_all2_conv_all_nth)

lemma apply_categories_rows:
  assumes "apply_categories cz d = Inr d'"
  shows "list_all2 (\<lambda>a b. (\<forall>c. c \<noteq> ''Category'' \<longrightarrow> b c = a c)
            \<and> (''Category'' \<notin> set (columns d) \<longrightarrow> ''Category'' \<in> set (columns d') \<longrightarrow>
                 b ''Category'' = Some Null \<or> (\<exists>k\<in>fst ` set cz. b ''Category'' = Some (Str k))))
           (rows d) (rows d')"
    and "set (columns d) \<subseteq> set (columns d')"
proof -
  show "set (columns d) \<subseteq> set (columns d')"
    using assms by (auto simp: apply_categories_def Let_def split: if_splits sum.splits)
  show "list_all2 (\<lambda>a b. (\<forall>c. c \<noteq> ''Category'' \<longrightarrow> b c = a c)
            \<and> (''Category'' \<notin> set (columns d) \<longrightarrow> ''Category'' \<in> set (columns d') \<longrightarrow>
                 b ''Category'' = Some Null \<or> (\<exists>k\<in>fst ` set cz. b ''Category'' = Some (Str k))))
           (rows d) (rows d')"
  proof (cases "''Text'' \<in> set (columns d)")
    case False
    with assms have "d' = d" by (simp add: apply_categories_def)
    then show ?thesis by (simp add: list_all2_same)
  next
    case True
    define b where "b = (''Category'' \<in> set (columns d))"
    from assms True obtain as where as: "categorize_rows b cz (rows d) = Inr as"
      by (auto simp: apply_categories_def Let_def b_def split: sum.splits)
    note r = categorize_rows_result[OF as]
    show ?thesis
    proof (cases "list_all (\<lambda>a. a = None) as")
      case True
      with assms \<open>''Text'' \<in> set (columns d)\<close> as have "d' = d"
        by (simp add: apply_categories_def Let_def b_def)
      then show ?thesis by (simp add: list_all2_same)
    next
      case False
      with assms \<open>''Text'' \<in> set (columns d)\<close> as
      have d': "rows d' = map2 (\<lambda>row a. case a of
                                     Some category \<Rightarrow> row(''Category'' \<mapsto> Str category)
                                   | None \<Rightarrow> if b then row else row(''Category'' \<mapsto> Null))
                               (rows d) as"
        by (auto simp: apply_categories_def Let_def b_def)
      show ?thesis unfolding d'
      proof (rule list_all2_map2_self)
        show "length as = length (rows d)" using r by simp
      next
        fix i assume "i < length (rows d)"
        then have "as ! i \<in> set as" using r by simp
        with r have "as ! i = None \<or> as ! i \<in> Some ` fst ` set cz" by blast
        then show "(\<forall>c. c \<noteq> ''Category'' \<longrightarrow>
             (case as ! i of None \<Rightarrow> if b then rows d ! i else (rows d ! i)(''Category'' \<mapsto> Null)
              | Some category \<Rightarrow> (rows d ! i)(''Category'' \<mapsto> Str category)) c = (rows d ! i) c) \<and>
          (''Category'' \<notin> set (columns d) \<longrightarrow> ''Category'' \<in> set (columns d') \<longrightarrow>
             (case as ! i of None \<Rightarrow> if b then rows d ! i else (rows d ! i)(''Category'' \<mapsto> Null)
              | Some category \<Rightarrow> (rows d ! i)(''Category'' \<mapsto> Str category)) ''Category'' = Some Null \<or>
             (\<exists>k\<in>fst ` set cz.
                (case as ! i of None \<Rightarrow> if b then rows d ! i else (rows d ! i)(''Category'' \<mapsto> Null)
                 | Some category \<Rightarrow> (rows d ! i)(''Category'' \<mapsto> Str category)) ''Category'' = Some (Str k)))"
        proof (cases "as ! i")
          case None
          then show ?thesis by (simp add: b_def)
        next
          case (Some k)
          with \<open>as ! i = None \<or> as ! i \<in> Some ` fst ` set cz\<close> have "k \<in> fst ` set cz" by auto
          with Some show ?thesis by simp
        qed
      qed
    qed
  qed
qed

lemma add_uncategorized_rows:
  assumes "add_uncategorized d = Inr d'"
  shows "''Category'' \<in> set (columns d)"
    and "rows d' = map (\<lambda>r. r(''Category'' \<mapsto> (case r ''Category'' of None \<Rightarrow> Str ''Uncategorized''
                        | Some Null \<Rightarrow> Str ''Uncategorized'' | Some v \<Rightarrow> v))) (rows d)"
    and "set (columns d') = set (columns d)"
  using assms by (auto simp: add_uncategorized_def split: if_splits)

lemma set_type_rows:
  assumes "set_type_where_category category ty d = Inr d'"
  shows "rows d' = map (\<lambda>r. if r ''Category'' = Some (Str category) then r(''Type'' \<mapsto> Str ty)
                               else if r ''Type'' = None then r(''Type'' \<mapsto> Null) else r) (rows d)"
    and "set (columns d') = insert ''Type'' (set (columns d))"
  using assms by (auto simp: set_type_where_category_def split: if_splits)

lemma amount_column_rows:
  assumes "amount_column category d = Inr d'"
  shows "rows d' = map (\<lambda>x. x(''Amount'' @ category \<mapsto>
                     (if x ''Category'' = Some (Str category)
                       then (case x ''Amount'' of Some v \<Rightarrow> v | None \<Rightarrow> Null)
                       else Num 0))) (rows d)"
  using assms by (auto simp: amount_column_def split: if_splits)

lemma amount_columns_rows:
  assumes "amount_columns cats d = Inr d'"
  shows "list_all2 (\<lambda>a b. (\<forall>k. k \<notin> (\<lambda>C. ''Amount'' @ C) ` set cats \<longrightarrow> b k = a k)
            \<and> ([] \<notin> set cats \<longrightarrow> (\<forall>C\<in>set cats. b (''Amount'' @ C) =
                  Some (if a ''Category'' = Some (Str C)
                        then (case a ''Amount'' of Some v \<Rightarrow> v | None \<Rightarrow> Null) else Num 0))))
          (rows d) (rows d')"
  using assms
proof (induction cats arbitrary: d)
  case Nil
  then show ?case by (simp add: list_all2_same)
next
  case (Cons c cats)
  from Cons.prems obtain d1 where 1: "amount_column c d = Inr d1" and 2: "amount_columns cats d1 = Inr d'"
    by (auto split: sum.splits)
  note r1 = amount_column_rows[OF 1]
  have s1: "list_all2 (\<lambda>a a1. a1 = a(''Amount'' @ c \<mapsto>
                     (if a ''Category'' = Some (Str c)
                       then (case a ''Amount'' of Some v \<Rightarrow> v | None \<Rightarrow> Null)
                       else Num 0))) (rows d) (rows d1)"
    unfolding r1 by (simp add: list_all2_map_self)
  show ?case
  proof (rule list_all2_trans[OF _ s1 Cons.IH[OF 2]], goal_cases)
    case (1 a a1 b)
    define v where "v = (if a ''Category'' = Some (Str c)
                       then (case a ''Amount'' of Some v \<Rightarrow> v | None \<Rightarrow> Null) else Num 0)"
    have a1: "a1 = a(''Amount'' @ c \<mapsto> v)" using 1(1) by (simp add: v_def)
    have u: "\<forall>k. k \<notin> (\<lambda>C. ''Amount'' @ C) ` set cats \<longrightarrow> b k = a1 k" using 1(2) by blast
    have first: "\<forall>k. k \<notin> (\<lambda>C. ''Amount'' @ C) ` set (c # cats) \<longrightarrow> b k = a k"
      using u a1 by auto
    have second: "\<forall>C\<in>set (c # cats). b (''Amount'' @ C) =
                  Some (if a ''Category'' = Some (Str C)
                        then (case a ''Amount'' of Some v \<Rightarrow> v | None \<Rightarrow> Null) else Num 0)"
      if ne: "[] \<notin> set (c # cats)"
    proof
      fix C assume C: "C \<in> set (c # cats)"
      from ne have cne: "c \<noteq> []" "[] \<notin> set cats" by auto
      have keep: "a1 ''Category'' = a ''Category''" "a1 ''Amount'' = a ''Amount''"
        using a1 cne by auto
      show "b (''Amount'' @ C) =
                  Some (if a ''Category'' = Some (Str C)
                        then (case a ''Amount'' of Some v \<Rightarrow> v | None \<Rightarrow> Null) else Num 0)"
      proof (cases "C \<in> set cats")
        case True
        with 1(2) cne have "b (''Amount'' @ C) =
                  Some (if a1 ''Category'' = Some (Str C)
                        then (case a1 ''Amount'' of Some v \<Rightarrow> v | None \<Rightarrow> Null) else Num 0)"
          by blast
        then show ?thesis by (simp add: keep)
      next
        case False
        with C have Cc: "C = c" by simp
        have "''Amount'' @ c \<notin> (\<lambda>C. ''Amount'' @ C) ` set cats" using False Cc by auto
        with u have "b (''Amount'' @ c) = a1 (''Amount'' @ c)" by blast
        then show ?thesis by (simp add: a1 v_def Cc)
      qed
    qed
    from first second show ?case by blast
  qed
qed

lemma add_date_total:
  assumes "''Date'' \<in> set (columns d) \<longrightarrow> datetimelike d"
  shows "\<exists>d'. load_and_transform_data_from_source_add_additional_columns_from_date d = Inr d'"
  using assms
  by (cases "''Date'' \<in> set (columns d)")
     (simp_all add: load_and_transform_data_from_source_add_additional_columns_from_date_def Let_def)

lemma add_amount_total:
  assumes "list_all (\<lambda>x. compares_with_zero (x ''Amount'')) (rows d)"
  shows "\<exists>d'. load_and_transform_data_from_source_add_additional_columns_from_amount d = Inr d'"
  using assms
  by (simp add: load_and_transform_data_from_source_add_additional_columns_from_amount_def)

lemma clean_data_total:
  assumes "''Date'' \<in> set (columns d)" "''Amount'' \<in> set (columns d)"
    and "''Text'' \<in> set (columns d) \<longrightarrow>
           (\<forall>r\<in>set (rows d). \<not> isna (r ''Date'') \<and> \<not> isna (r ''Amount'') \<longrightarrow> is_str (r ''Text''))"
  shows "\<exists>d'. load_and_transform_data_from_source_clean_data d = Inr d'"
  using assms
  by (auto simp: load_and_transform_data_from_source_clean_data_def dropna_def and_then_def
        list_all_iff)

lemma apply_modifier_total:
  assumes "''Amount'' \<in> set (columns d)" "source ''modifier'' = Some j" "modifier_factor j = Some m"
    and "list_all (\<lambda>r. compares_with_zero (r ''Amount'')) (rows d)"
  shows "\<exists>d'. apply_modifier source d = Inr d'"
  using assms by (simp add: apply_modifier_def)

lemma filter_amounts_total:
  assumes "lookup_source_type source sts = Inr st" "st ''minAmount'' = None" "st ''maxAmount'' = None"
  shows "filter_amounts source sts d = Inr d"
  using assms by (simp add: filter_amounts_def filter_by_bound_def)

lemma scan_keywords_str:
  "scan_keywords (Some (Str t)) kws = Inr (list_ex (\<lambda>k. contains k t) kws)"
  by (induction kws) simp_all

lemma find_append:
  "find P (xs @ ys) = (case find P xs of None \<Rightarrow> find P ys | Some x \<Rightarrow> Some x)"
  by (induction xs) simp_all

lemma scan_categories_last_match:
  "scan_categories False (Some (Str t)) cz a =
     Inr (case find (has_keyword_in t) (rev cz) of Some rule \<Rightarrow> Some (fst rule) | None \<Rightarrow> a)"
proof (induction cz arbitrary: a)
  case Nil
  show ?case by simp
next
  case (Cons p cz)
  obtain c kws where p: "p = (c, kws)" by (cases p)
  show ?case
    by (simp add: p scan_keywords_str Cons.IH find_append has_keyword_in_def split: option.splits)
qed

lemma scan_categories_first_only:
  "scan_categories True (Some (Str t)) ((c, kws) # cz) a =
     Inr (if list_ex (\<lambda>k. contains k t) kws then Some c else a)"
  by (simp add: scan_keywords_str)

lemma scan_categories_str_total:
  "\<exists>r. scan_categories b (Some (Str t)) cz a = Inr r"
proof (induction cz arbitrary: a)
  case Nil
  show ?case by simp
next
  case (Cons p cz)
  obtain c kws where p: "p = (c, kws)" by (cases p)
  show ?case using Cons.IH by (cases b) (simp_all add: p scan_keywords_str)
qed

lemma categorize_rows_total:
  assumes "list_all (\<lambda>r. is_str (r ''Text'')) xs"
  shows "\<exists>as. categorize_rows b cz xs = Inr as"
  using assms
proof (induction xs)
  case Nil
  show ?case by simp
next
  case (Cons x xs)
  then obtain t where t: "x ''Text'' = Some (Str t)" by (auto simp: is_str_iff)
  from scan_categories_str_total[of b t cz None] obtain r where
    "scan_categories b (Some (Str t)) cz None = Inr r" by blast
  moreover from Cons obtain as where "categorize_rows b cz xs = Inr as" by auto
  ultimately show ?case by (simp add: t)
qed

lemma categorize_rows_nth:
  assumes "categorize_rows b cz xs = Inr as" "i < length xs"
  shows "scan_categories b ((xs ! i) ''Text'') cz None = Inr (as ! i)"
  using assms
proof (induction xs arbitrary: as i)
  case Nil
  then show ?case by simp
next
  case (Cons x xs)
  from Cons.prems(1) obtain a others where
    a: "scan_categories b (x ''Text'') cz None = Inr a" and
    o: "categorize_rows b cz xs = Inr others" and as: "as = a # others"
    by (auto split: sum.splits)
  show ?case
  proof (cases i)
    case 0
    then show ?thesis by (simp add: a as)
  next
    case (Suc j)
    with Cons.prems(2) have "j < length xs" by simp
    from Cons.IH[OF o this] show ?thesis by (simp add: Suc as)
  qed
qed

lemma apply_categories_total:
  assumes "''Text'' \<in> set (columns d) \<longrightarrow> list_all (\<lambda>r. is_str (r ''Text'')) (rows d)"
  shows "\<exists>d'. apply_categories cz d = Inr d'"
proof (cases "''Text'' \<in> set (columns d)")
  case False
  then show ?thesis by (simp add: apply_categories_def)
next
  case True
  with assms have "list_all (\<lambda>r. is_str (r ''Text'')) (rows d)" by simp
  from categorize_rows_total[OF this] obtain as where
    "categorize_rows (''Category'' \<in> set (columns d)) cz (rows d) = Inr as" by blast
  with True show ?thesis by (simp add: apply_categories_def Let_def)
qed

lemma apply_categories_makes_column:
  assumes "apply_categories cz d = Inr d'" "''Text'' \<in> set (columns d)"
    and "''Category'' \<notin> set (columns d)"
    and "r \<in> set (rows d)" "r ''Text'' = Some (Str t)"
    and "(c, kws) \<in> set cz" "k \<in> set kws" "contains k t"
  shows "''Category'' \<in> set (columns d')"
proof -
  from assms(1,2,3) obtain as where as: "categorize_rows False cz (rows d) = Inr as"
    by (auto simp: apply_categories_def Let_def split: sum.splits)
  from assms(4) obtain i where i: "i < length (rows d)" "rows d ! i = r"
    by (auto simp: in_set_conv_nth)
  have "has_keyword_in t (c, kws)" using assms(7,8) by (auto simp: has_keyword_in_def list_ex_iff)
  then have "find (has_keyword_in t) (rev cz) \<noteq> None"
    using assms(6) by (auto simp: find_None_iff)
  then have "scan_categories False (Some (Str t)) cz None \<noteq> Inr None"
    by (auto simp: scan_categories_last_match split: option.splits)
  with categorize_rows_nth[OF as i(1)] i(2) assms(5) have "as ! i \<noteq> None" by auto
  moreover have "length as = length (rows d)" using categorize_rows_result[OF as] by simp
  ultimately have "\<not> list_all (\<lambda>a. a = None) as"
    using i(1) by (auto simp: list_all_length)
  with assms(1,2,3) as show ?thesis by (auto simp: apply_categories_def Let_def)
qed

lemma add_uncategorized_total:
  "''Category'' \<in> set (columns d) \<Longrightarrow> \<exists>d'. add_uncategorized d = Inr d'"
  by (simp add: add_uncategorized_def)

lemma set_type_total:
  "''Category'' \<in> set (columns d) \<Longrightarrow> \<exists>d'. set_type_where_category c ty d = Inr d'"
  by (simp add: set_type_where_category_def)

lemma amount_columns_total:
  assumes "''Category'' \<in> set (columns d)" "''Amount'' \<in> set (columns d)"
  shows "\<exists>d'. amount_columns cats d = Inr d'"
  using assms
proof (induction cats arbitrary: d)
  case Nil
  show ?case by simp
next
  case (Cons c cats)
  define d1 where "d1 = set_column (''Amount'' @ c)
                  (\<lambda>x. if x ''Category'' = Some (Str c)
                       then (case x ''Amount'' of Some v \<Rightarrow> v | None \<Rightarrow> Null)
                       else Num 0) d"
  have 1: "amount_column c d = Inr d1" using Cons.prems by (simp add: amount_column_def d1_def)
  have "''Category'' \<in> set (columns d1)" "''Amount'' \<in> set (columns d1)"
    using Cons.prems by (simp_all add: d1_def)
  from Cons.IH[OF this] show ?case by (simp add: 1)
qed

lemma enrich_source_total:
  assumes "src ''path'' = Some (JStr p)" "src ''type'' = Some (JStr t)"
    and "src ''modifier'' = None \<or> (\<exists>j m. src ''modifier'' = Some j \<and> modifier_factor j = Some m)"
  obtains source j m where
    "load_and_transform_data_from_source_enrich_source src = Inr source"
    "source ''path'' = Some (JStr p)" "source ''type'' = Some (JStr t)"
    "source ''modifier'' = Some j" "modifier_factor j = Some m"
proof (cases "src ''modifier''")
  case None
  define source where "source = projr (load_and_transform_data_from_source_enrich_source src)"
  have "load_and_transform_data_from_source_enrich_source src = Inr source"
    "source ''path'' = Some (JStr p)" "source ''type'' = Some (JStr t)"
    "source ''modifier'' = Some (JNum 1)"
    using assms(1,2) None
    by (simp_all add: source_def load_and_transform_data_from_source_enrich_source_def Let_def)
  moreover have "modifier_factor (JNum 1) = Some 1" by (simp add: modifier_factor_def)
  ultimately show ?thesis by (rule that)
next
  case (Some j)
  with assms(3) obtain m where m: "modifier_factor j = Some m" by auto
  define source where "source = projr (load_and_transform_data_from_source_enrich_source src)"
  have "load_and_transform_data_from_source_enrich_source src = Inr source"
    "source ''path'' = Some (JStr p)" "source ''type'' = Some (JStr t)"
    "source ''modifier'' = Some j"
    using assms(1,2) Some
    by (simp_all add: source_def load_and_transform_data_from_source_enrich_source_def Let_def)
  then show ?thesis using m by (rule that)
qed

lemma list_all2_list_all:
  assumes "list_all2 Q xs ys" "list_all P xs" "\<And>x y. Q x y \<Longrightarrow> P x \<Longrightarrow> P' y"
  shows "list_all P' ys"
  using assms by (induction rule: list_all2_induct) auto

lemma pipeline_total:
  assumes src: "src ''path'' = Some (JStr p)" "endswith p ''.csv'' \<or> endswith p ''.xlsx''"
      "src ''type'' = Some (JStr t)" "sts t = Some st" "st ''columns'' \<noteq> None"
      "st ''minAmount'' = None" "st ''maxAmount'' = None"
      "src ''modifier'' = None \<or> (\<exists>j m. src ''modifier'' = Some j \<and> modifier_factor j = Some m)"
    and tbl: "''Date'' \<in> set (columns mapped)" "''Amount'' \<in> set (columns mapped)"
      "datetimelike mapped"
      "list_all (\<lambda>r. compares_with_zero (r ''Amount'')) (rows mapped)"
      "''Text'' \<in> set (columns mapped) \<longrightarrow>
         (\<forall>r\<in>set (rows mapped). \<not> isna (r ''Date'') \<and> \<not> isna (r ''Amount'') \<longrightarrow> is_str (r ''Text''))"
    and cat: "''Category'' \<in> set (columns mapped)
       \<or> (''Text'' \<in> set (columns mapped)
          \<and> (\<exists>r\<in>set (rows mapped). \<not> isna (r ''Date'') \<and> \<not> isna (r ''Amount'')
               \<and> (\<exists>x c kws k. r ''Text'' = Some (Str x) \<and> (c, kws) \<in> set cz \<and> k \<in> set kws
                      \<and> contains k (clean_text x))))"
  shows "\<exists>out. load_and_transform_data_from_source src sts cz mapped = Inr out"
proof -
  define keep :: "row \<Rightarrow> bool" where "keep = (\<lambda>r. \<not> isna (r ''Date'') \<and> \<not> isna (r ''Amount''))"
  let ?K = "{''Date'', ''Amount'', ''Category'', ''Text'', ''Type''}"
  from enrich_source_total[OF src(1,3,8)] obtain source j m where source:
    "load_and_transform_data_from_source_enrich_source src = Inr source"
    "source ''path'' = Some (JStr p)" "source ''type'' = Some (JStr t)"
    "source ''modifier'' = Some j" "modifier_factor j = Some m" by blast
  have lk: "lookup_source_type source sts = Inr st"
    using source(3) src(4) by (simp add: lookup_source_type_def getitem_source_types_def)
  have cp: "check_path source = Inr ()"
    using source(2) src(2) by (auto simp: check_path_def)
  \<comment> \<open>calendar columns\<close>
  from add_date_total[of mapped] tbl(3) obtain d1 where
    s1: "load_and_transform_data_from_source_add_additional_columns_from_date mapped = Inr d1"
    by blast
  note c1 = add_date_columns[OF s1]
  have a1: "list_all2 (\<lambda>a b. \<forall>k\<in>?K. b k = a k) (rows mapped) (rows d1)"
    by (rule add_date_rows[OF s1])
  have am1: "''Amount'' \<in> set (columns d1)" using c1 tbl(2) by simp
  \<comment> \<open>Type\<close>
  have "list_all (\<lambda>r. compares_with_zero (r ''Amount'')) (rows d1)"
    by (rule list_all2_list_all[OF a1 tbl(4)]) simp
  from add_amount_total[OF this] obtain d2 where
    s2: "load_and_transform_data_from_source_add_additional_columns_from_amount d1 = Inr d2"
    by blast
  note r2 = add_amount_rows[OF s2 am1]
  have a2: "list_all2 (\<lambda>a b. b ''Date'' = a ''Date'' \<and> b ''Amount'' = a ''Amount''
              \<and> b ''Text'' = a ''Text'') (rows d1) (rows d2)"
    unfolding r2(1) by (simp add: list_all2_map_self)
  have a12: "list_all2 (\<lambda>a b. b ''Date'' = a ''Date'' \<and> b ''Amount'' = a ''Amount''
              \<and> b ''Text'' = a ''Text'') (rows mapped) (rows d2)"
    by (rule list_all2_trans[OF _ a1 a2]) simp
  have c2: "''Date'' \<in> set (columns d2)" "''Amount'' \<in> set (columns d2)"
    "''Text'' \<in> set (columns d2) \<longleftrightarrow> ''Text'' \<in> set (columns mapped)"
    "''Category'' \<in> set (columns d2) \<longleftrightarrow> ''Category'' \<in> set (columns mapped)"
    using r2(2) c1 tbl(1,2) by simp_all
  \<comment> \<open>cleaning\<close>
  have t2: "\<forall>r\<in>set (rows d2). keep r \<longrightarrow> is_str (r ''Text'')" if "''Text'' \<in> set (columns mapped)"
  proof -
    from tbl(5) that have "list_all (\<lambda>r. keep r \<longrightarrow> is_str (r ''Text'')) (rows mapped)"
      by (simp add: list_all_iff keep_def)
    then have "list_all (\<lambda>r. keep r \<longrightarrow> is_str (r ''Text'')) (rows d2)"
      by (rule list_all2_list_all[OF a12]) (simp add: keep_def)
    then show ?thesis by (simp add: list_all_iff)
  qed
  have "\<exists>d'. load_and_transform_data_from_source_clean_data d2 = Inr d'"
    by (rule clean_data_total[OF c2(1,2)]) (use t2 c2(3) in \<open>simp add: keep_def\<close>)
  then obtain d3 where s3: "load_and_transform_data_from_source_clean_data d2 = Inr d3" by blast
  note c3 = clean_data_succeeds(3)[OF s3]
  have a12f: "list_all2 (\<lambda>a b. b ''Date'' = a ''Date'' \<and> b ''Amount'' = a ''Amount''
              \<and> b ''Text'' = a ''Text'') (filter keep (rows mapped)) (filter keep (rows d2))"
    by (rule list_all2_filter[OF a12]) (simp add: keep_def)
  have a3: "list_all2 (\<lambda>a b. \<forall>c. c \<noteq> ''Text'' \<longrightarrow> b c = a c) (filter keep (rows d2)) (rows d3)"
    using clean_data_succeeds(4)[OF s3] by (simp add: keep_def)
  have a13: "list_all2 (\<lambda>a b. b ''Amount'' = a ''Amount'') (filter keep (rows mapped)) (rows d3)"
    by (rule list_all2_trans[OF _ a12f a3]) simp
  \<comment> \<open>modifier\<close>
  have "list_all (\<lambda>r. compares_with_zero (r ''Amount'')) (filter keep (rows mapped))"
    using tbl(4) by (simp add: list_all_iff)
  then have cz3: "list_all (\<lambda>r. compares_with_zero (r ''Amount'')) (rows d3)"
    by (rule list_all2_list_all[OF a13]) simp
  have am3: "''Amount'' \<in> set (columns d3)" using c3 c2(2) by simp
  from apply_modifier_total[where source = source and d = d3 and j = j and m = m,
      OF am3 source(4,5) cz3] obtain d4 where
    s4: "apply_modifier source d3 = Inr d4" by blast
  from apply_modifier_rows(1)[OF s4] obtain m' where
    r4: "rows d4 = map (\<lambda>r. r(''Amount'' \<mapsto> times_factor m' (r ''Amount''))) (rows d3)" by blast
  note c4 = apply_modifier_rows(2)[OF s4]
  have s5: "filter_amounts source sts d4 = Inr d4"
    by (rule filter_amounts_total[OF lk src(6,7)])
  \<comment> \<open>categories\<close>
  have t4: "list_all (\<lambda>r. is_str (r ''Text'')) (rows d4)" if "''Text'' \<in> set (columns d4)"
  proof -
    from that have "''Text'' \<in> set (columns d2)" using c3 c4 by simp
    from clean_data_succeeds(5)[OF s3 this] show ?thesis
      unfolding r4 by (simp add: list_all_iff)
  qed
  from apply_categories_total[of d4 cz] t4 obtain d6 where s6: "apply_categories cz d4 = Inr d6"
    by blast
  have c6: "set (columns d4) \<subseteq> set (columns d6)" by (rule apply_categories_rows(2)[OF s6])
  have cat6: "''Category'' \<in> set (columns d6)"
  proof (cases "''Category'' \<in> set (columns mapped)")
    case True
    then have "''Category'' \<in> set (columns d4)" using c2(4) c3 c4 by simp
    with c6 show ?thesis by blast
  next
    case False
    with cat obtain r x c kws k where tx: "''Text'' \<in> set (columns mapped)"
      and r: "r \<in> set (rows mapped)" "keep r" "r ''Text'' = Some (Str x)"
      and k: "(c, kws) \<in> set cz" "k \<in> set kws" "contains k (clean_text x)"
      unfolding keep_def by blast
    from r(1,2) have "r \<in> set (filter keep (rows mapped))" by simp
    then obtain i where i: "i < length (filter keep (rows mapped))" "filter keep (rows mapped) ! i = r"
      by (metis in_set_conv_nth)
    have tx2: "''Text'' \<in> set (columns d2)" using tx c2(3) by simp
    have a3t: "list_all2 (\<lambda>a b. \<exists>x. a ''Text'' = Some (Str x) \<and> b ''Text'' = Some (Str (clean_text x)))
         (filter keep (rows d2)) (rows d3)"
      using clean_data_succeeds(6)[OF s3 tx2] by (simp add: keep_def)
    have a13t: "list_all2 (\<lambda>a b. \<exists>x. a ''Text'' = Some (Str x) \<and> b ''Text'' = Some (Str (clean_text x)))
         (filter keep (rows mapped)) (rows d3)"
      by (rule list_all2_trans[OF _ a12f a3t]) simp
    then have len: "length (rows d3) = length (filter keep (rows mapped))"
      and "\<exists>x. (filter keep (rows mapped) ! i) ''Text'' = Some (Str x)
              \<and> (rows d3 ! i) ''Text'' = Some (Str (clean_text x))"
      using i(1) by (simp_all add: list_all2_conv_all_nth)
    with i(2) r(3) have t3: "(rows d3 ! i) ''Text'' = Some (Str (clean_text x))" by simp
    have i4: "i < length (rows d4)" using i(1) len by (simp add: r4)
    have t4': "(rows d4 ! i) ''Text'' = Some (Str (clean_text x))"
      using t3 i(1) len by (simp add: r4)
    have m4: "rows d4 ! i \<in> set (rows d4)" using i4 by simp
    have tx4: "''Text'' \<in> set (columns d4)" using tx2 c3 c4 by simp
    have nc4: "''Category'' \<notin> set (columns d4)" using False c2(4) c3 c4 by simp
    show ?thesis
      by (rule apply_categories_makes_column[where r = "rows d4 ! i", OF s6 tx4 nc4 m4 t4' k])
  qed
  from add_uncategorized_total[OF cat6] obtain d7 where s7: "add_uncategorized d6 = Inr d7" by blast
  have cat7: "''Category'' \<in> set (columns d7)"
    using add_uncategorized_rows(3)[OF s7] cat6 by simp
  from set_type_total[OF cat7] obtain d8 where
    s8: "set_type_where_category ''Investments'' ''Investment'' d7 = Inr d8" by blast
  have cat8: "''Category'' \<in> set (columns d8)" using set_type_rows(2)[OF s8] cat7 by simp
  from set_type_total[OF cat8] obtain d9 where
    s9: "set_type_where_category ''Transfers'' ''Transfer'' d8 = Inr d9" by blast
  have cat9: "''Category'' \<in> set (columns d9)" using set_type_rows(2)[OF s9] cat8 by simp
  have am9: "''Amount'' \<in> set (columns d9)"
    using am3 c4 c6 add_uncategorized_rows(3)[OF s7] set_type_rows(2)[OF s8] set_type_rows(2)[OF s9]
    by auto
  from amount_columns_total[OF cat9 am9] obtain out where
    s10: "amount_columns (map fst cz @ [''Uncategorized'']) d9 = Inr out" by blast
  have "load_and_transform_data_from_source src sts cz mapped = Inr out"
    unfolding load_and_transform_data_from_source_def
    by (simp add: and_then_def raised_in_def source(1) lk cp src(5) s1 s2 s3 s4 s5 s6 s7 s8 s9 s10)
  then show ?thesis by blast
qed

lemma apply_categories_new_column:
  assumes "apply_categories cz d = Inr d'" "''Category'' \<notin> set (columns d)"
    and "''Category'' \<in> set (columns d')"
  shows "''Text'' \<in> set (columns d)"
    and "list_all2 (\<lambda>a b. \<exists>s. scan_categories False (a ''Text'') cz None = Inr s
              \<and> b ''Category'' = Some (case s of Some c \<Rightarrow> Str c | None \<Rightarrow> Null))
           (rows d) (rows d')"
proof -
  show tx: "''Text'' \<in> set (columns d)"
    using assms by (auto simp: apply_categories_def split: if_splits)
  from assms(1,2) tx obtain as where as: "categorize_rows False cz (rows d) = Inr as"
    by (auto simp: apply_categories_def Let_def split: sum.splits)
  have "\<not> list_all (\<lambda>a. a = None) as"
    using assms tx as by (auto simp: apply_categories_def Let_def split: if_splits)
  with assms(1,2) tx as
  have d': "rows d' = map2 (\<lambda>row a. case a of
                                     Some category \<Rightarrow> row(''Category'' \<mapsto> Str category)
                                   | None \<Rightarrow> row(''Category'' \<mapsto> Null))
                               (rows d) as"
    by (auto simp: apply_categories_def Let_def)
  show "list_all2 (\<lambda>a b. \<exists>s. scan_categories False (a ''Text'') cz None = Inr s
              \<and> b ''Category'' = Some (case s of Some c \<Rightarrow> Str c | None \<Rightarrow> Null))
           (rows d) (rows d')"
    unfolding d'
  proof (rule list_all2_map2_self)
    show "length as = length (rows d)" using categorize_rows_result[OF as] by simp
  next
    fix i assume "i < length (rows d)"
    from categorize_rows_nth[OF as this]
    show "\<exists>s. scan_categories False ((rows d ! i) ''Text'') cz None = Inr s \<and>
             (case as ! i of None \<Rightarrow> (rows d ! i)(''Category'' \<mapsto> Null)
              | Some category \<Rightarrow> (rows d ! i)(''Category'' \<mapsto> Str category)) ''Category'' =
             Some (case s of None \<Rightarrow> Null | Some c \<Rightarrow> Str c)"
      by (cases "as ! i") simp_all
  qed
qed

lemma last_matching_category_in:
  "last_matching_category cz t \<in> insert ''Uncategorized'' (fst ` set cz)"
proof (cases "find (has_keyword_in t) (rev cz)")
  case None
  then show ?thesis by (simp add: last_matching_category_def)
next
  case (Some rule)
  then have "rule \<in> set (rev cz)" by (metis find_Some_iff nth_mem)
  then have "rule \<in> set cz" by simp
  with Some show ?thesis by (simp add: last_matching_category_def)
qed

lemma enrich_source_factor:
  assumes "load_and_transform_data_from_source_enrich_source src = Inr source"
    and "source ''modifier'' = Some j" "modifier_factor j = Some m"
  shows "source_factor src = Some m"
  using assms
  by (auto simp: load_and_transform_data_from_source_enrich_source_def Let_def source_factor_def
        modifier_factor_def split: if_splits option.splits)

text \<open>
  What the stages before the amount columns leave in each row, read against the row of
  the mapped table that it comes from.
\<close>

lemma pipeline_rows:
  assumes "load_and_transform_data_from_source src sts cz mapped = Inr out"
  obtains d9 m where
    "amount_columns (map fst cz @ [''Uncategorized'']) d9 = Inr out"
    "source_factor src = Some m"
    "list_all2 (\<lambda>r0 r.
        r ''Type'' = Some (Str (if r ''Category'' = Some (Str ''Investments'') then ''Investment''
                                else if r ''Category'' = Some (Str ''Transfers'') then ''Transfer''
                                else if gt_zero (r0 ''Amount'') then ''Income'' else ''Expense''))
        \<and> r ''Amount'' = Some (times_factor m (r0 ''Amount''))
        \<and> (\<exists>x. times_factor m (r0 ''Amount'') = Num x)
        \<and> (\<exists>v. r ''Category'' = Some v \<and> v \<noteq> Null)
        \<and> (''Category'' \<notin> set (columns mapped) \<longrightarrow>
             (\<exists>x. r0 ''Text'' = Some (Str x)
                \<and> r ''Category'' = Some (Str (last_matching_category cz (clean_text x))))))
      (filter has_date_and_amount (rows mapped)) (rows d9)"
proof -
  from pipeline_succeeds[OF assms] obtain source st d1 d2 d3 d4 d5 d6 d7 d8 d9 where st:
    "load_and_transform_data_from_source_add_additional_columns_from_date mapped = Inr d1"
    "load_and_transform_data_from_source_add_additional_columns_from_amount d1 = Inr d2"
    "load_and_transform_data_from_source_clean_data d2 = Inr d3"
    "apply_modifier source d3 = Inr d4"
    "filter_amounts source sts d4 = Inr d5"
    "apply_categories cz d5 = Inr d6"
    "add_uncategorized d6 = Inr d7"
    "set_type_where_category ''Investments'' ''Investment'' d7 = Inr d8"
    "set_type_where_category ''Transfers'' ''Transfer'' d8 = Inr d9"
    "amount_columns (map fst cz @ [''Uncategorized'']) d9 = Inr out"
    and en: "load_and_transform_data_from_source_enrich_source src = Inr source"
    by metis
  define keep where "keep = has_date_and_amount"
  define sign :: "row \<Rightarrow> string" where
    "sign = (\<lambda>r. if gt_zero (r ''Amount'') then ''Income'' else ''Expense'')"
  define fresh where "fresh = (''Category'' \<notin> set (columns mapped))"
  let ?K = "{''Date'', ''Amount'', ''Category'', ''Text'', ''Type''}"
  have keep: "keep r \<longleftrightarrow> \<not> isna (r ''Date'') \<and> \<not> isna (r ''Amount'')" for r
    by (simp add: keep_def has_date_and_amount_def)
  have keq: "(\<lambda>r. \<not> isna (r ''Date'') \<and> \<not> isna (r ''Amount'')) = keep"
    by (simp add: fun_eq_iff keep)
  \<comment> \<open>columns\<close>
  note c1 = add_date_columns[OF st(1)]
  have am2: "''Amount'' \<in> set (columns d2)" by (rule clean_data_succeeds(2)[OF st(3)])
  have am1: "''Amount'' \<in> set (columns d1)"
    using am2 add_amount_noop[OF st(2)] by blast
  note r2 = add_amount_rows[OF st(2) am1]
  have d5: "d5 = d4" by (rule filter_amounts_Inr[OF st(5)])
  have c5: "set (columns d5) = insert ''Type'' (set (columns d1))"
    using r2(2) clean_data_succeeds(3)[OF st(3)] apply_modifier_rows(2)[OF st(4)] d5 by simp
  have cat6: "''Category'' \<in> set (columns d6)" by (rule add_uncategorized_rows(1)[OF st(7)])
  have cat5: "fresh \<Longrightarrow> ''Category'' \<notin> set (columns d5)"
    using c5 c1 by (simp add: fresh_def)
  have tx: "''Text'' \<in> set (columns d2)" if fresh
  proof -
    have "''Text'' \<in> set (columns d5)"
      by (rule apply_categories_new_column(1)[OF st(6) cat5[OF that] cat6])
    then show ?thesis
      using clean_data_succeeds(3)[OF st(3)] apply_modifier_rows(2)[OF st(4)] d5 by simp
  qed
  \<comment> \<open>rows, up to the Cleaner\<close>
  have a1: "list_all2 (\<lambda>a b. \<forall>k\<in>?K. b k = a k) (rows mapped) (rows d1)"
    by (rule add_date_rows[OF st(1)])
  have a2: "list_all2 (\<lambda>a b. b = a(''Type'' \<mapsto> Str (sign a))) (rows d1) (rows d2)"
    unfolding r2(1) sign_def by (simp add: list_all2_map_self)
  have a12: "list_all2 (\<lambda>a b. b ''Type'' = Some (Str (sign a)) \<and> b ''Date'' = a ''Date''
                 \<and> b ''Amount'' = a ''Amount'' \<and> b ''Category'' = a ''Category''
                 \<and> b ''Text'' = a ''Text'')
               (rows mapped) (rows d2)"
    by (rule list_all2_trans[OF _ a1 a2]) (simp add: sign_def)
  have a12f: "list_all2 (\<lambda>a b. b ''Type'' = Some (Str (sign a)) \<and> b ''Date'' = a ''Date''
                 \<and> b ''Amount'' = a ''Amount'' \<and> b ''Category'' = a ''Category''
                 \<and> b ''Text'' = a ''Text'')
               (filter keep (rows mapped)) (filter keep (rows d2))"
    by (rule list_all2_filter[OF a12]) (simp add: keep)
  have a3: "list_all2 (\<lambda>a b. (\<forall>c. c \<noteq> ''Text'' \<longrightarrow> b c = a c)
                 \<and> (fresh \<longrightarrow> (\<exists>x. a ''Text'' = Some (Str x) \<and> b ''Text'' = Some (Str (clean_text x)))))
             (filter keep (rows d2)) (rows d3)"
  proof (cases fresh)
    case True
    have "list_all2 (\<lambda>a b. \<exists>x. a ''Text'' = Some (Str x) \<and> b ''Text'' = Some (Str (clean_text x)))
            (filter keep (rows d2)) (rows d3)"
      using clean_data_succeeds(6)[OF st(3) tx[OF True]] unfolding keq .
    moreover have "list_all2 (\<lambda>a b. \<forall>c. c \<noteq> ''Text'' \<longrightarrow> b c = a c) (filter keep (rows d2)) (rows d3)"
      using clean_data_succeeds(4)[OF st(3)] unfolding keq .
    ultimately show ?thesis by (simp add: list_all2_conv_all_nth)
  next
    case False
    then show ?thesis
      using clean_data_succeeds(4)[OF st(3)] unfolding keq by simp
  qed
  have a13: "list_all2 (\<lambda>a b. b ''Type'' = Some (Str (sign a))
                 \<and> b ''Amount'' = a ''Amount''
                 \<and> (fresh \<longrightarrow> (\<exists>x. a ''Text'' = Some (Str x) \<and> b ''Text'' = Some (Str (clean_text x)))))
               (filter keep (rows mapped)) (rows d3)"
    by (rule list_all2_trans[OF _ a12f a3]) auto
  have k3: "list_all2 (\<lambda>a b. keep a \<and> b ''Type'' = Some (Str (sign a))
                 \<and> b ''Amount'' = a ''Amount''
                 \<and> (fresh \<longrightarrow> (\<exists>x. a ''Text'' = Some (Str x) \<and> b ''Text'' = Some (Str (clean_text x)))))
               (filter keep (rows mapped)) (rows d3)"
  proof -
    have "keep (filter keep (rows mapped) ! i)" if "i < length (filter keep (rows mapped))" for i
      using nth_mem[OF that] by simp
    with a13 show ?thesis by (simp add: list_all2_conv_all_nth)
  qed
  \<comment> \<open>the modifier\<close>
  from apply_modifier_rows(1)[OF st(4)] obtain j m where
    jm: "source ''modifier'' = Some j" "modifier_factor j = Some m" and
    r4: "rows d4 = map (\<lambda>r. r(''Amount'' \<mapsto> times_factor m (r ''Amount''))) (rows d3)" by blast
  have sf: "source_factor src = Some m" by (rule enrich_source_factor[OF en jm])
  have cz3: "\<forall>r\<in>set (rows d3). compares_with_zero (r ''Amount'')"
    using apply_modifier_rows(3)[OF st(4)] by (simp add: list_all_iff)
  have a4: "list_all2 (\<lambda>a b. compares_with_zero (a ''Amount'')
                 \<and> b = a(''Amount'' \<mapsto> times_factor m (a ''Amount''))) (rows d3) (rows d4)"
    unfolding r4 using cz3 by (simp add: list_all2_map_self)
  have a14: "list_all2 (\<lambda>a b. b ''Type'' = Some (Str (sign a))
                 \<and> b ''Amount'' = Some (times_factor m (a ''Amount''))
                 \<and> (\<exists>x. times_factor m (a ''Amount'') = Num x)
                 \<and> (fresh \<longrightarrow> (\<exists>x. a ''Text'' = Some (Str x) \<and> b ''Text'' = Some (Str (clean_text x)))))
               (filter keep (rows mapped)) (rows d4)"
  proof (rule list_all2_trans[OF _ k3 a4], goal_cases)
    case (1 a b c)
    then have "compares_with_zero (a ''Amount'')" "\<not> isna (a ''Amount'')"
      by (simp_all add: keep)
    from times_factor_Num[OF this, of m] obtain x where "times_factor m (a ''Amount'') = Num x" .
    with 1 show ?case by simp
  qed
  \<comment> \<open>the categories\<close>
  have a6: "list_all2 (\<lambda>a b. (\<forall>c. c \<noteq> ''Category'' \<longrightarrow> b c = a c)
               \<and> (fresh \<longrightarrow> (\<exists>s. scan_categories False (a ''Text'') cz None = Inr s
                     \<and> b ''Category'' = Some (case s of Some c \<Rightarrow> Str c | None \<Rightarrow> Null))))
             (rows d5) (rows d6)"
  proof (cases fresh)
    case True
    have "list_all2 (\<lambda>a b. \<exists>s. scan_categories False (a ''Text'') cz None = Inr s
              \<and> b ''Category'' = Some (case s of Some c \<Rightarrow> Str c | None \<Rightarrow> Null))
           (rows d5) (rows d6)"
      by (rule apply_categories_new_column(2)[OF st(6) cat5[OF True] cat6])
    moreover have "list_all2 (\<lambda>a b. \<forall>c. c \<noteq> ''Category'' \<longrightarrow> b c = a c) (rows d5) (rows d6)"
      by (rule list_all2_mono[OF apply_categories_rows(1)[OF st(6)]]) simp
    ultimately show ?thesis by (simp add: list_all2_conv_all_nth)
  next
    case False
    show ?thesis
      by (rule list_all2_mono[OF apply_categories_rows(1)[OF st(6)]]) (simp add: False)
  qed
  have a16: "list_all2 (\<lambda>a b. b ''Type'' = Some (Str (sign a))
                 \<and> b ''Amount'' = Some (times_factor m (a ''Amount''))
                 \<and> (\<exists>x. times_factor m (a ''Amount'') = Num x)
                 \<and> (fresh \<longrightarrow> (\<exists>x. a ''Text'' = Some (Str x)
                       \<and> b ''Category'' = Some (case find (has_keyword_in (clean_text x)) (rev cz) of
                                                 Some rule \<Rightarrow> Str (fst rule) | None \<Rightarrow> Null))))
               (filter keep (rows mapped)) (rows d6)"
  proof (rule list_all2_trans[OF _ a14[folded d5] a6], goal_cases)
    case (1 a b c)
    have "\<exists>x. a ''Text'' = Some (Str x)
                       \<and> c ''Category'' = Some (case find (has_keyword_in (clean_text x)) (rev cz) of
                                                 Some rule \<Rightarrow> Str (fst rule) | None \<Rightarrow> Null)"
      if fresh
    proof -
      from 1 that obtain x where x: "a ''Text'' = Some (Str x)" "b ''Text'' = Some (Str (clean_text x))"
        by blast
      from 1 that obtain s where s: "scan_categories False (b ''Text'') cz None = Inr s"
        "c ''Category'' = Some (case s of Some c \<Rightarrow> Str c | None \<Rightarrow> Null)" by blast
      from s(1) have "s = (case find (has_keyword_in (clean_text x)) (rev cz) of
                             Some rule \<Rightarrow> Some (fst rule) | None \<Rightarrow> None)"
        by (simp add: x(2) scan_categories_last_match)
      with s(2) x(1) show ?thesis by (auto split: option.splits)
    qed
    with 1 show ?case by simp
  qed
  have a7: "list_all2 (\<lambda>a b. b = a(''Category'' \<mapsto> (case a ''Category'' of None \<Rightarrow> Str ''Uncategorized''
                        | Some Null \<Rightarrow> Str ''Uncategorized'' | Some v \<Rightarrow> v))) (rows d6) (rows d7)"
    unfolding add_uncategorized_rows(2)[OF st(7)] by (simp add: list_all2_map_self)
  define ok :: "row \<Rightarrow> cell option \<Rightarrow> bool" where
    "ok = (\<lambda>a v. (\<exists>w. v = Some w \<and> w \<noteq> Null)
           \<and> (fresh \<longrightarrow> (\<exists>x. a ''Text'' = Some (Str x)
                  \<and> v = Some (Str (last_matching_category cz (clean_text x))))))"
  have a17: "list_all2 (\<lambda>a b. b ''Type'' = Some (Str (sign a))
                 \<and> b ''Amount'' = Some (times_factor m (a ''Amount''))
                 \<and> (\<exists>x. times_factor m (a ''Amount'') = Num x) \<and> ok a (b ''Category''))
               (filter keep (rows mapped)) (rows d7)"
  proof (rule list_all2_trans[OF _ a16 a7], goal_cases)
    case (1 a b c)
    define f where "f = (case b ''Category'' of None \<Rightarrow> Str ''Uncategorized''
                        | Some Null \<Rightarrow> Str ''Uncategorized'' | Some v \<Rightarrow> v)"
    have c: "c = b(''Category'' \<mapsto> f)" using 1 by (simp add: f_def)
    have f: "f \<noteq> Null" by (auto simp: f_def split: option.splits cell.splits)
    have m: "\<exists>x. a ''Text'' = Some (Str x) \<and> f = Str (last_matching_category cz (clean_text x))"
      if fresh
    proof -
      from 1 that obtain x where x: "a ''Text'' = Some (Str x)"
        "b ''Category'' = Some (case find (has_keyword_in (clean_text x)) (rev cz) of
                                                 Some rule \<Rightarrow> Str (fst rule) | None \<Rightarrow> Null)"
        by blast
      have "f = Str (last_matching_category cz (clean_text x))"
        unfolding f_def x(2) last_matching_category_def by (simp split: option.splits)
      with x(1) show ?thesis by blast
    qed
    from f m have "ok a (Some f)" unfolding ok_def by simp
    with 1(1) show ?case unfolding c by simp
  qed
  have a8: "list_all2 (\<lambda>a b. b = (if a ''Category'' = Some (Str ''Investments'') then a(''Type'' \<mapsto> Str ''Investment'')
                               else if a ''Type'' = None then a(''Type'' \<mapsto> Null) else a)) (rows d7) (rows d8)"
    unfolding set_type_rows(1)[OF st(8)] by (simp add: list_all2_map_self)
  have a9: "list_all2 (\<lambda>a b. b = (if a ''Category'' = Some (Str ''Transfers'') then a(''Type'' \<mapsto> Str ''Transfer'')
                               else if a ''Type'' = None then a(''Type'' \<mapsto> Null) else a)) (rows d8) (rows d9)"
    unfolding set_type_rows(1)[OF st(9)] by (simp add: list_all2_map_self)
  have a18: "list_all2 (\<lambda>a b. b ''Type'' = Some (Str (if b ''Category'' = Some (Str ''Investments'') then ''Investment'' else sign a))
                 \<and> b ''Amount'' = Some (times_factor m (a ''Amount''))
                 \<and> (\<exists>x. times_factor m (a ''Amount'') = Num x) \<and> ok a (b ''Category''))
               (filter keep (rows mapped)) (rows d8)"
    by (rule list_all2_trans[OF _ a17 a8]) auto
  have a19: "list_all2 (\<lambda>a b. b ''Type'' = Some (Str (if b ''Category'' = Some (Str ''Investments'') then ''Investment''
                                else if b ''Category'' = Some (Str ''Transfers'') then ''Transfer'' else sign a))
                 \<and> b ''Amount'' = Some (times_factor m (a ''Amount''))
                 \<and> (\<exists>x. times_factor m (a ''Amount'') = Num x) \<and> ok a (b ''Category''))
               (filter keep (rows mapped)) (rows d9)"
    by (rule list_all2_trans[OF _ a18 a9]) auto
  show ?thesis
    by (rule that[OF st(10) sf])
       (use a19 in \<open>unfold keep_def sign_def ok_def fresh_def\<close>, assumption)
qed

text \<open>The rows of the result, read against the rows of the mapped table.\<close>

lemma pipeline_output:
  assumes "load_and_transform_data_from_source src sts cz mapped = Inr out"
  obtains m where
    "source_factor src = Some m"
    "list_all2 (\<lambda>r0 r.
        r ''Type'' = Some (Str (if r ''Category'' = Some (Str ''Investments'') then ''Investment''
                                else if r ''Category'' = Some (Str ''Transfers'') then ''Transfer''
                                else if gt_zero (r0 ''Amount'') then ''Income'' else ''Expense''))
        \<and> (\<exists>v. r ''Category'' = Some v \<and> v \<noteq> Null)
        \<and> (''Category'' \<notin> set (columns mapped) \<longrightarrow>
             (\<exists>x. r0 ''Text'' = Some (Str x)
                \<and> r ''Category'' = Some (Str (last_matching_category cz (clean_text x)))))
        \<and> (\<exists>x. times_factor m (r0 ''Amount'') = Num x)
        \<and> ([] \<notin> fst ` set cz \<longrightarrow>
              r ''Amount'' = Some (times_factor m (r0 ''Amount''))
              \<and> (\<forall>C\<in>insert ''Uncategorized'' (fst ` set cz).
                    r (''Amount'' @ C) = Some (if r ''Category'' = Some (Str C)
                                               then times_factor m (r0 ''Amount'') else Num 0))))
      (filter has_date_and_amount (rows mapped)) (rows out)"
proof -
  from pipeline_rows[OF assms] obtain d9 m where
    ac: "amount_columns (map fst cz @ [''Uncategorized'']) d9 = Inr out" and
    sf: "source_factor src = Some m" and
    r9: "list_all2 (\<lambda>r0 r.
        r ''Type'' = Some (Str (if r ''Category'' = Some (Str ''Investments'') then ''Investment''
                                else if r ''Category'' = Some (Str ''Transfers'') then ''Transfer''
                                else if gt_zero (r0 ''Amount'') then ''Income'' else ''Expense''))
        \<and> r ''Amount'' = Some (times_factor m (r0 ''Amount''))
        \<and> (\<exists>x. times_factor m (r0 ''Amount'') = Num x)
        \<and> (\<exists>v. r ''Category'' = Some v \<and> v \<noteq> Null)
        \<and> (''Category'' \<notin> set (columns mapped) \<longrightarrow>
             (\<exists>x. r0 ''Text'' = Some (Str x)
                \<and> r ''Category'' = Some (Str (last_matching_category cz (clean_text x))))))
      (filter has_date_and_amount (rows mapped)) (rows d9)" by blast
  note e = amount_columns_rows[OF ac]
  have "list_all2 (\<lambda>r0 r.
        r ''Type'' = Some (Str (if r ''Category'' = Some (Str ''Investments'') then ''Investment''
                                else if r ''Category'' = Some (Str ''Transfers'') then ''Transfer''
                                else if gt_zero (r0 ''Amount'') then ''Income'' else ''Expense''))
        \<and> (\<exists>v. r ''Category'' = Some v \<and> v \<noteq> Null)
        \<and> (''Category'' \<notin> set (columns mapped) \<longrightarrow>
             (\<exists>x. r0 ''Text'' = Some (Str x)
                \<and> r ''Category'' = Some (Str (last_matching_category cz (clean_text x)))))
        \<and> (\<exists>x. times_factor m (r0 ''Amount'') = Num x)
        \<and> ([] \<notin> fst ` set cz \<longrightarrow>
              r ''Amount'' = Some (times_factor m (r0 ''Amount''))
              \<and> (\<forall>C\<in>insert ''Uncategorized'' (fst ` set cz).
                    r (''Amount'' @ C) = Some (if r ''Category'' = Some (Str C)
                                               then times_factor m (r0 ''Amount'') else Num 0))))
      (filter has_date_and_amount (rows mapped)) (rows out)"
  proof (rule list_all2_trans[OF _ r9 e], goal_cases)
    case (1 r0 a b)
    have u: "b k = a k" if "k \<notin> (\<lambda>C. ''Amount'' @ C) ` set (map fst cz @ [''Uncategorized''])" for k
      using 1(2) that by blast
    have ty: "b ''Type'' = a ''Type''" by (rule u) auto
    have ca: "b ''Category'' = a ''Category''" by (rule u) auto
    have am: "b ''Amount'' = a ''Amount''" if "[] \<notin> fst ` set cz"
      by (rule u) (use that in auto)
    have cols: "b (''Amount'' @ C) = Some (if a ''Category'' = Some (Str C)
                        then (case a ''Amount'' of Some v \<Rightarrow> v | None \<Rightarrow> Null) else Num 0)"
      if "[] \<notin> fst ` set cz" "C \<in> insert ''Uncategorized'' (fst ` set cz)" for C
    proof -
      from that(1) have "[] \<notin> set (map fst cz @ [''Uncategorized''])" by simp
      moreover from that(2) have "C \<in> set (map fst cz @ [''Uncategorized''])" by auto
      ultimately show ?thesis using 1(2) by blast
    qed
    from 1(1) have a: "a ''Amount'' = Some (times_factor m (r0 ''Amount''))" by blast
    have t1: "b ''Type'' = Some (Str (if b ''Category'' = Some (Str ''Investments'') then ''Investment''
                                else if b ''Category'' = Some (Str ''Transfers'') then ''Transfer''
                                else if gt_zero (r0 ''Amount'') then ''Income'' else ''Expense''))"
      unfolding ty ca using 1(1) by blast
    have t2: "\<exists>v. b ''Category'' = Some v \<and> v \<noteq> Null" unfolding ca using 1(1) by blast
    have t3: "''Category'' \<notin> set (columns mapped) \<longrightarrow>
             (\<exists>x. r0 ''Text'' = Some (Str x)
                \<and> b ''Category'' = Some (Str (last_matching_category cz (clean_text x))))"
      unfolding ca using 1(1) by blast
    have t4: "\<exists>x. times_factor m (r0 ''Amount'') = Num x" using 1(1) by blast
    have t5: "[] \<notin> fst ` set cz \<longrightarrow>
              b ''Amount'' = Some (times_factor m (r0 ''Amount''))
              \<and> (\<forall>C\<in>insert ''Uncategorized'' (fst ` set cz).
                    b (''Amount'' @ C) = Some (if b ''Category'' = Some (Str C)
                                               then times_factor m (r0 ''Amount'') else Num 0))"
    proof (intro impI conjI ballI)
      assume n: "[] \<notin> fst ` set cz"
      show "b ''Amount'' = Some (times_factor m (r0 ''Amount''))"
        using am[OF n] a by simp
      fix C assume C: "C \<in> insert ''Uncategorized'' (fst ` set cz)"
      show "b (''Amount'' @ C) = Some (if b ''Category'' = Some (Str C)
                                               then times_factor m (r0 ''Amount'') else Num 0)"
        unfolding cols[OF n C] ca a by simp
    qed
    show ?case by (intro conjI) (rule t1 t2 t3 t4 t5)+
  qed
  with sf show ?thesis by (rule that)
qed

text \<open>
  C6. Every row of the result whose Category is \<open>Investments\<close> has Type \<open>Investment\<close>, every row
  whose Category is \<open>Transfers\<close> has Type \<open>Transfer\<close>, whatever the sign of its Amount, and
  every other row has the Type that the Amount Classifier gave it from the sign of the Amount
  of the row of the mapped table that it comes from: \<open>Income\<close> above zero, \<open>Expense\<close> otherwise.
  The rows of the result are the rows of the mapped table with a Date and an Amount, in their
  order.
\<close>

theorem type_reclassification:
  assumes "load_and_transform_data_from_source source source_types categorizations mapped = Inr out"
  shows "list_all2 (\<lambda>r0 r.
           r ''Type'' = Some (Str (if r ''Category'' = Some (Str ''Investments'') then ''Investment''
                                   else if r ''Category'' = Some (Str ''Transfers'') then ''Transfer''
                                   else if gt_zero (r0 ''Amount'') then ''Income'' else ''Expense'')))
         (filter has_date_and_amount (rows mapped)) (rows out)"
proof -
  from pipeline_output[OF assms] obtain m where
    "list_all2 (\<lambda>r0 r.
        r ''Type'' = Some (Str (if r ''Category'' = Some (Str ''Investments'') then ''Investment''
                                else if r ''Category'' = Some (Str ''Transfers'') then ''Transfer''
                                else if gt_zero (r0 ''Amount'') then ''Income'' else ''Expense''))
        \<and> (\<exists>v. r ''Category'' = Some v \<and> v \<noteq> Null)
        \<and> (''Category'' \<notin> set (columns mapped) \<longrightarrow>
             (\<exists>x. r0 ''Text'' = Some (Str x)
                \<and> r ''Category'' = Some (Str (last_matching_category categorizations (clean_text x)))))
        \<and> (\<exists>x. times_factor m (r0 ''Amount'') = Num x)
        \<and> ([] \<notin> fst ` set categorizations \<longrightarrow>
              r ''Amount'' = Some (times_factor m (r0 ''Amount''))
              \<and> (\<forall>C\<in>insert ''Uncategorized'' (fst ` set categorizations).
                    r (''Amount'' @ C) = Some (if r ''Category'' = Some (Str C)
                                               then times_factor m (r0 ''Amount'') else Num 0))))
      (filter has_date_and_amount (rows mapped)) (rows out)" by blast
  then show ?thesis by (rule list_all2_mono) blast
qed

text \<open>
  C2, as amended. When no category of the rule map is named by the empty string, every row of
  the result has a numeric Amount, and for every category \<open>C\<close> of the rule map and for
  \<open>Uncategorized\<close> the column \<open>Amount<C>\<close> holds the Amount of the row when its Category is
  \<open>C\<close> and 0 otherwise; so at most one of these columns is not 0. When moreover the mapped
  table has no Category column of its own (the Categorizer then gives every row a category of
  the rule map or \<open>Uncategorized\<close>), these columns sum to the Amount, and they are all 0 only
  when the Amount is 0.
\<close>

theorem amount_columns_partition:
  assumes run: "load_and_transform_data_from_source source source_types categorizations mapped = Inr out"
    and names: "[] \<notin> fst ` set categorizations"
    and r: "r \<in> set (rows out)"
  shows "\<exists>a. r ''Amount'' = Some (Num a)
     \<and> (\<forall>C\<in>insert ''Uncategorized'' (fst ` set categorizations).
           r (''Amount'' @ C) = (if r ''Category'' = Some (Str C) then r ''Amount'' else Some (Num 0)))
     \<and> card {C \<in> insert ''Uncategorized'' (fst ` set categorizations).
                r (''Amount'' @ C) \<noteq> Some (Num 0)} \<le> 1
     \<and> (''Category'' \<notin> set (columns mapped) \<longrightarrow>
           (\<Sum>C\<in>insert ''Uncategorized'' (fst ` set categorizations).
               cell_number (r (''Amount'' @ C))) = a
         \<and> ((\<forall>C\<in>insert ''Uncategorized'' (fst ` set categorizations).
                r (''Amount'' @ C) = Some (Num 0)) \<longrightarrow> a = 0))"
proof -
  let ?S = "insert ''Uncategorized'' (fst ` set categorizations)"
  from pipeline_output[OF run] obtain m where
    rel: "list_all2 (\<lambda>r0 r.
        r ''Type'' = Some (Str (if r ''Category'' = Some (Str ''Investments'') then ''Investment''
                                else if r ''Category'' = Some (Str ''Transfers'') then ''Transfer''
                                else if gt_zero (r0 ''Amount'') then ''Income'' else ''Expense''))
        \<and> (\<exists>v. r ''Category'' = Some v \<and> v \<noteq> Null)
        \<and> (''Category'' \<notin> set (columns mapped) \<longrightarrow>
             (\<exists>x. r0 ''Text'' = Some (Str x)
                \<and> r ''Category'' = Some (Str (last_matching_category categorizations (clean_text x)))))
        \<and> (\<exists>x. times_factor m (r0 ''Amount'') = Num x)
        \<and> ([] \<notin> fst ` set categorizations \<longrightarrow>
              r ''Amount'' = Some (times_factor m (r0 ''Amount''))
              \<and> (\<forall>C\<in>insert ''Uncategorized'' (fst ` set categorizations).
                    r (''Amount'' @ C) = Some (if r ''Category'' = Some (Str C)
                                               then times_factor m (r0 ''Amount'') else Num 0))))
      (filter has_date_and_amount (rows mapped)) (rows out)" by blast
  from r obtain i where i: "i < length (rows out)" "rows out ! i = r"
    by (metis in_set_conv_nth)
  define r0 where "r0 = filter has_date_and_amount (rows mapped) ! i"
  from rel i names obtain a where
    a: "r ''Amount'' = Some (Num a)" and
    cols: "\<forall>C\<in>?S. r (''Amount'' @ C) = Some (if r ''Category'' = Some (Str C) then Num a else Num 0)" and
    cat: "''Category'' \<notin> set (columns mapped) \<longrightarrow>
             (\<exists>x. r ''Category'' = Some (Str (last_matching_category categorizations (clean_text x))))"
    unfolding list_all2_conv_all_nth r0_def[symmetric] by (metis (no_types, lifting))
  have fin: "finite ?S" by simp
  have c1: "\<forall>C\<in>?S. r (''Amount'' @ C) = (if r ''Category'' = Some (Str C) then r ''Amount'' else Some (Num 0))"
    using cols a by simp
  have "\<exists>c. {C \<in> ?S. r (''Amount'' @ C) \<noteq> Some (Num 0)} \<subseteq> {c}"
  proof (cases "\<exists>c. r ''Category'' = Some (Str c)")
    case True
    then obtain c where c: "r ''Category'' = Some (Str c)" by blast
    have "{C \<in> ?S. r (''Amount'' @ C) \<noteq> Some (Num 0)} \<subseteq> {c}"
    proof
      fix C assume "C \<in> {C \<in> ?S. r (''Amount'' @ C) \<noteq> Some (Num 0)}"
      then have C: "C \<in> ?S" "r (''Amount'' @ C) \<noteq> Some (Num 0)" by auto
      from cols C(1) have "r (''Amount'' @ C) = Some (if r ''Category'' = Some (Str C) then Num a else Num 0)"
        by blast
      with C(2) have "r ''Category'' = Some (Str C)" by (auto split: if_splits)
      with c show "C \<in> {c}" by simp
    qed
    then show ?thesis by blast
  next
    case False
    have "{C \<in> ?S. r (''Amount'' @ C) \<noteq> Some (Num 0)} \<subseteq> {[]}"
    proof
      fix C assume "C \<in> {C \<in> ?S. r (''Amount'' @ C) \<noteq> Some (Num 0)}"
      then have C: "C \<in> ?S" "r (''Amount'' @ C) \<noteq> Some (Num 0)" by auto
      from cols C(1) have "r (''Amount'' @ C) = Some (if r ''Category'' = Some (Str C) then Num a else Num 0)"
        by blast
      with C(2) have "r ''Category'' = Some (Str C)" by (auto split: if_splits)
      with False show "C \<in> {[]}" by blast
    qed
    then show ?thesis by blast
  qed
  then obtain c where "{C \<in> ?S. r (''Amount'' @ C) \<noteq> Some (Num 0)} \<subseteq> {c}" by blast
  then have "card {C \<in> ?S. r (''Amount'' @ C) \<noteq> Some (Num 0)} \<le> card {c}"
    by (intro card_mono) simp_all
  then have c2: "card {C \<in> ?S. r (''Amount'' @ C) \<noteq> Some (Num 0)} \<le> 1" by simp
  have c3: "(\<Sum>C\<in>?S. cell_number (r (''Amount'' @ C))) = a
         \<and> ((\<forall>C\<in>?S. r (''Amount'' @ C) = Some (Num 0)) \<longrightarrow> a = 0)"
    if "''Category'' \<notin> set (columns mapped)"
  proof -
    from cat that obtain x where
      x: "r ''Category'' = Some (Str (last_matching_category categorizations (clean_text x)))" by blast
    define c0 where "c0 = last_matching_category categorizations (clean_text x)"
    have c0: "c0 \<in> ?S" unfolding c0_def by (rule last_matching_category_in)
    have each: "cell_number (r (''Amount'' @ C)) = (if C = c0 then a else 0)" if "C \<in> ?S" for C
    proof -
      from cols that have "r (''Amount'' @ C) = Some (if r ''Category'' = Some (Str C) then Num a else Num 0)"
        by blast
      then show ?thesis unfolding x c0_def[symmetric] by (auto simp: cell_number_def)
    qed
    have "(\<Sum>C\<in>?S. cell_number (r (''Amount'' @ C))) = (\<Sum>C\<in>?S. if C = c0 then a else 0)"
      by (rule sum.cong[OF refl]) (rule each)
    also have "\<dots> = a" using c0 fin by (simp only: sum.delta if_True)
    finally have s: "(\<Sum>C\<in>?S. cell_number (r (''Amount'' @ C))) = a" .
    from cols c0 have "r (''Amount'' @ c0) = Some (if r ''Category'' = Some (Str c0) then Num a else Num 0)"
      by blast
    then have "r (''Amount'' @ c0) = Some (Num a)" unfolding x c0_def[symmetric] by simp
    then have "(\<forall>C\<in>?S. r (''Amount'' @ C) = Some (Num 0)) \<longrightarrow> a = 0" using c0 by auto
    with s show ?thesis by blast
  qed
  from a c1 c2 c3 show ?thesis by blast
qed

lemma clean_text_statement:
  "clean_text ''NETFLIX.COM M/24-05-05'' = ''netflix.com''"
  "clean_text ''ICA SWISH'' = ''ica swish''"
  "clean_text ''AVANZA'' = ''avanza''"
  by (simp_all add: clean_text_def str_strip_def str_lower_def isspace_def is_digit_def
        is_ascii_letter_def lower_char_def char_of_eq_iff)

lemma spending_rules_statement:
  "last_matching_category spending_rules ''netflix.com'' = ''Subscriptions''"
  "last_matching_category spending_rules ''ica swish'' = ''Transfers''"
  "last_matching_category spending_rules ''avanza'' = ''Investments''"
  "first_matching_category spending_rules ''ica swish'' = ''Groceries''"
  by (simp_all add: last_matching_category_def first_matching_category_def spending_rules_def
        has_keyword_in_def)

lemma statement_kept: "filter has_date_and_amount (rows statement) = rows statement"
  by (simp add: statement_def has_date_and_amount_def isna_def)

lemma bank_source_factor: "source_factor bank_source = Some 1"
  by (simp add: source_factor_def bank_source_def)

lemma statement_runs_if:
  assumes "r \<in> set (rows statement)" "r ''Text'' = Some (Str x)"
    and "(c, kws) \<in> set cz" "k \<in> set kws" "contains k (clean_text x)"
  shows "\<exists>out. load_and_transform_data_from_source bank_source bank_source_types cz statement
           = Inr out"
proof (rule pipeline_total)
  show "bank_source ''path'' = Some (JStr ''bank.csv'')" by (simp add: bank_source_def)
  show "endswith ''bank.csv'' ''.csv'' \<or> endswith ''bank.csv'' ''.xlsx''" by (simp add: endswith_def)
  show "bank_source ''type'' = Some (JStr ''bank'')" by (simp add: bank_source_def)
  show "bank_source_types ''bank'' = Some [''columns'' \<mapsto> bank_columns]"
    by (simp add: bank_source_types_def)
  show "[''columns'' \<mapsto> bank_columns] ''columns'' \<noteq> None" by simp
  show "[''columns'' \<mapsto> bank_columns] ''minAmount'' = None" by simp
  show "[''columns'' \<mapsto> bank_columns] ''maxAmount'' = None" by simp
  show "bank_source ''modifier'' = None \<or>
        (\<exists>j m. bank_source ''modifier'' = Some j \<and> modifier_factor j = Some m)"
    by (simp add: bank_source_def)
  show "''Date'' \<in> set (columns statement)" by (simp add: statement_def)
  show "''Amount'' \<in> set (columns statement)" by (simp add: statement_def)
  show "datetimelike statement" by (simp add: statement_def datetimelike_def)
  show "list_all (\<lambda>r. compares_with_zero (r ''Amount'')) (rows statement)"
    by (simp add: statement_def compares_with_zero_def)
  show "''Text'' \<in> set (columns statement) \<longrightarrow>
         (\<forall>r\<in>set (rows statement). \<not> isna (r ''Date'') \<and> \<not> isna (r ''Amount'') \<longrightarrow> is_str (r ''Text''))"
    by (simp add: statement_def is_str_def)
  have "\<not> isna (r ''Date'') \<and> \<not> isna (r ''Amount'')"
    using assms(1) by (auto simp: statement_def isna_def)
  with assms show "''Category'' \<in> set (columns statement)
       \<or> (''Text'' \<in> set (columns statement)
          \<and> (\<exists>r\<in>set (rows statement). \<not> isna (r ''Date'') \<and> \<not> isna (r ''Amount'')
               \<and> (\<exists>x c kws k. r ''Text'' = Some (Str x) \<and> (c, kws) \<in> set cz \<and> k \<in> set kws
                      \<and> contains k (clean_text x))))"
    by (intro disjI2 conjI bexI[where x = r] exI[where x = x] exI[where x = c]
          exI[where x = kws] exI[where x = k])
       (simp_all add: statement_def)
qed

lemma statement_second_row:
  "[''Date'' \<mapsto> DateC (Timestamp 2024 5 6), ''Text'' \<mapsto> Str ''ICA SWISH'',
    ''Amount'' \<mapsto> Num (- 50)] \<in> set (rows statement)"
  by (simp add: statement_def)

lemma statement_runs:
  "\<exists>out. load_and_transform_data_from_source bank_source bank_source_types spending_rules statement
           = Inr out"
  by (rule statement_runs_if[OF statement_second_row, where x = "''ICA SWISH''" and k = "''ica''"
        and c = "''Groceries''" and kws = "[''ica'']"])
     (simp_all add: spending_rules_def clean_text_statement)

lemma statement_result:
  obtains out y1 y2 y3 where
    "load_and_transform_data_from_source bank_source bank_source_types spending_rules statement
       = Inr out"
    "rows out = [y1, y2, y3]"
    "y1 ''Category'' = Some (Str ''Subscriptions'')" "y1 ''Type'' = Some (Str ''Expense'')"
    "y2 ''Category'' = Some (Str ''Transfers'')" "y2 ''Type'' = Some (Str ''Transfer'')"
    "y3 ''Category'' = Some (Str ''Investments'')" "y3 ''Type'' = Some (Str ''Investment'')"
    "y1 ''Amount'' = Some (Num (- 109))" "y1 ''AmountSubscriptions'' = Some (Num (- 109))"
    "y1 ''AmountGroceries'' = Some (Num 0)" "y1 ''AmountTransfers'' = Some (Num 0)"
    "y1 ''AmountInvestments'' = Some (Num 0)" "y1 ''AmountUncategorized'' = Some (Num 0)"
proof -
  from statement_runs obtain out where
    run: "load_and_transform_data_from_source bank_source bank_source_types spending_rules statement
            = Inr out" by blast
  define R where "R = (\<lambda>(r0 :: row) (r :: row).
        r ''Type'' = Some (Str (if r ''Category'' = Some (Str ''Investments'') then ''Investment''
                                else if r ''Category'' = Some (Str ''Transfers'') then ''Transfer''
                                else if gt_zero (r0 ''Amount'') then ''Income'' else ''Expense''))
        \<and> (\<exists>v. r ''Category'' = Some v \<and> v \<noteq> Null)
        \<and> (''Category'' \<notin> set (columns statement) \<longrightarrow>
             (\<exists>x. r0 ''Text'' = Some (Str x)
                \<and> r ''Category'' = Some (Str (last_matching_category spending_rules (clean_text x)))))
        \<and> (\<exists>x. times_factor 1 (r0 ''Amount'') = Num x)
        \<and> ([] \<notin> fst ` set spending_rules \<longrightarrow>
              r ''Amount'' = Some (times_factor 1 (r0 ''Amount''))
              \<and> (\<forall>C\<in>insert ''Uncategorized'' (fst ` set spending_rules).
                    r (''Amount'' @ C) = Some (if r ''Category'' = Some (Str C)
                                               then times_factor 1 (r0 ''Amount'') else Num 0))))"
  from pipeline_output[OF run] obtain m where sf: "source_factor bank_source = Some m" and
    rel0: "list_all2 (\<lambda>r0 r.
        r ''Type'' = Some (Str (if r ''Category'' = Some (Str ''Investments'') then ''Investment''
                                else if r ''Category'' = Some (Str ''Transfers'') then ''Transfer''
                                else if gt_zero (r0 ''Amount'') then ''Income'' else ''Expense''))
        \<and> (\<exists>v. r ''Category'' = Some v \<and> v \<noteq> Null)
        \<and> (''Category'' \<notin> set (columns statement) \<longrightarrow>
             (\<exists>x. r0 ''Text'' = Some (Str x)
                \<and> r ''Category'' = Some (Str (last_matching_category spending_rules (clean_text x)))))
        \<and> (\<exists>x. times_factor m (r0 ''Amount'') = Num x)
        \<and> ([] \<notin> fst ` set spending_rules \<longrightarrow>
              r ''Amount'' = Some (times_factor m (r0 ''Amount''))
              \<and> (\<forall>C\<in>insert ''Uncategorized'' (fst ` set spending_rules).
                    r (''Amount'' @ C) = Some (if r ''Category'' = Some (Str C)
                                               then times_factor m (r0 ''Amount'') else Num 0))))
      (filter has_date_and_amount (rows statement)) (rows out)" by blast
  have m: "m = 1" using sf bank_source_factor by simp
  have rel: "list_all2 R (rows statement) (rows out)"
    using rel0 unfolding m R_def statement_kept .
  define s1 :: row where "s1 = [''Date'' \<mapsto> DateC (Timestamp 2024 5 5),
       ''Text'' \<mapsto> Str ''NETFLIX.COM M/24-05-05'', ''Amount'' \<mapsto> Num (- 109)]"
  define s2 :: row where "s2 = [''Date'' \<mapsto> DateC (Timestamp 2024 5 6),
       ''Text'' \<mapsto> Str ''ICA SWISH'', ''Amount'' \<mapsto> Num (- 50)]"
  define s3 :: row where "s3 = [''Date'' \<mapsto> DateC (Timestamp 2024 5 7),
       ''Text'' \<mapsto> Str ''AVANZA'', ''Amount'' \<mapsto> Num 500]"
  have rs: "rows statement = [s1, s2, s3]" by (simp add: statement_def s1_def s2_def s3_def)
  from rel obtain y1 y2 y3 where ys: "rows out = [y1, y2, y3]" and
    R1: "R s1 y1" and R2: "R s2 y2" and R3: "R s3 y3"
    unfolding rs by (auto simp: list_all2_Cons1)
  have nc: "''Category'' \<notin> set (columns statement)" by (simp add: statement_def)
  have ne: "[] \<notin> fst ` set spending_rules" by (simp add: spending_rules_def)
  have c1: "y1 ''Category'' = Some (Str ''Subscriptions'')"
    using R1 nc unfolding R_def by (simp add: s1_def clean_text_statement spending_rules_statement)
  have c2: "y2 ''Category'' = Some (Str ''Transfers'')"
    using R2 nc unfolding R_def by (simp add: s2_def clean_text_statement spending_rules_statement)
  have c3: "y3 ''Category'' = Some (Str ''Investments'')"
    using R3 nc unfolding R_def by (simp add: s3_def clean_text_statement spending_rules_statement)
  have t1: "y1 ''Type'' = Some (Str ''Expense'')"
    using R1 unfolding R_def c1 by (simp add: s1_def gt_zero_def)
  have t2: "y2 ''Type'' = Some (Str ''Transfer'')"
    using R2 unfolding R_def c2 by simp
  have t3: "y3 ''Type'' = Some (Str ''Investment'')"
    using R3 unfolding R_def c3 by simp
  from R1 ne have am: "y1 ''Amount'' = Some (times_factor 1 (s1 ''Amount''))"
    and cols: "\<forall>C\<in>insert ''Uncategorized'' (fst ` set spending_rules).
                    y1 (''Amount'' @ C) = Some (if y1 ''Category'' = Some (Str C)
                                               then times_factor 1 (s1 ''Amount'') else Num 0)"
    unfolding R_def by blast+
  have tf: "times_factor 1 (s1 ''Amount'') = Num (- 109)" by (simp add: s1_def times_factor_def)
  have a1: "y1 ''Amount'' = Some (Num (- 109))" using am tf by simp
  have m1: "y1 ''AmountSubscriptions'' = Some (Num (- 109))" "y1 ''AmountGroceries'' = Some (Num 0)"
    "y1 ''AmountTransfers'' = Some (Num 0)" "y1 ''AmountInvestments'' = Some (Num 0)"
    "y1 ''AmountUncategorized'' = Some (Num 0)"
    using cols unfolding c1 tf by (simp_all add: spending_rules_def)
  show ?thesis
    by (rule that[OF run ys c1 t1 c2 t2 c3 t3 a1 m1])
qed

text \<open>
  C1. On the statement, with the rules Subscriptions, Groceries, Transfers, Investments in this
  order, the row \<open>ICA SWISH\<close> matches Groceries (keyword \<open>ica\<close>) and Transfers (keyword \<open>swish\<close>):
  the pipeline gives it Transfers, the last matching category, where the first matching
  category is Groceries. The test \<open>'Category' in row\<close> reads the row as it was when the loop
  over the rows produced it, so that the loop over the categories never stops early. And on a
  table where no row matches any keyword the column Category is never made, and the step that
  fills in \<open>Uncategorized\<close> raises \<open>KeyError('Category')\<close>.
\<close>

theorem categorizer_last_match_wins:
  "map_sum id (\<lambda>d. map (\<lambda>r. r ''Category'') (rows d))
     (load_and_transform_data_from_source bank_source bank_source_types spending_rules statement)
   = Inr [Some (Str ''Subscriptions''), Some (Str ''Transfers''), Some (Str ''Investments'')]
   \<and> first_matching_category spending_rules (clean_text ''ICA SWISH'') = ''Groceries''
   \<and> and_then (apply_categories [(''Subscriptions'', [''netflix''])]
                 \<lparr>columns = [''Text''], rows = [[''Text'' \<mapsto> Str ''ica swish'']]\<rparr>)
        add_uncategorized
      = Inl (KeyError (JStr ''Category''))"
proof (intro conjI)
  show "map_sum id (\<lambda>d. map (\<lambda>r. r ''Category'') (rows d))
     (load_and_transform_data_from_source bank_source bank_source_types spending_rules statement)
   = Inr [Some (Str ''Subscriptions''), Some (Str ''Transfers''), Some (Str ''Investments'')]"
  proof (rule statement_result)
    fix out y1 y2 y3
    assume "load_and_transform_data_from_source bank_source bank_source_types spending_rules
              statement = Inr out"
      "rows out = [y1, y2, y3]"
      "y1 ''Category'' = Some (Str ''Subscriptions'')"
      "y2 ''Category'' = Some (Str ''Transfers'')"
      "y3 ''Category'' = Some (Str ''Investments'')"
    then show ?thesis by simp
  qed
  show "first_matching_category spending_rules (clean_text ''ICA SWISH'') = ''Groceries''"
    by (simp add: clean_text_statement spending_rules_statement)
  show "and_then (apply_categories [(''Subscriptions'', [''netflix''])]
                 \<lparr>columns = [''Text''], rows = [[''Text'' \<mapsto> Str ''ica swish'']]\<rparr>)
        add_uncategorized
      = Inl (KeyError (JStr ''Category''))"
    by (simp add: and_then_def apply_categories_def add_uncategorized_def)
qed

text \<open>The statement is an input of the theorem on the types (C6).\<close>

theorem type_reclassification_witness:
  "\<exists>out. load_and_transform_data_from_source bank_source bank_source_types spending_rules statement
            = Inr out
     \<and> map (\<lambda>r. (r ''Category'', r ''Type'')) (rows out)
        = [(Some (Str ''Subscriptions''), Some (Str ''Expense'')),
           (Some (Str ''Transfers''), Some (Str ''Transfer'')),
           (Some (Str ''Investments''), Some (Str ''Investment''))]
     \<and> list_all2 (\<lambda>r0 r.
           r ''Type'' = Some (Str (if r ''Category'' = Some (Str ''Investments'') then ''Investment''
                                   else if r ''Category'' = Some (Str ''Transfers'') then ''Transfer''
                                   else if gt_zero (r0 ''Amount'') then ''Income'' else ''Expense'')))
         (filter has_date_and_amount (rows statement)) (rows out)"
proof (rule statement_result)
  fix out y1 y2 y3
  assume run: "load_and_transform_data_from_source bank_source bank_source_types spending_rules
            statement = Inr out"
    and out: "rows out = [y1, y2, y3]"
    "y1 ''Category'' = Some (Str ''Subscriptions'')" "y1 ''Type'' = Some (Str ''Expense'')"
    "y2 ''Category'' = Some (Str ''Transfers'')" "y2 ''Type'' = Some (Str ''Transfer'')"
    "y3 ''Category'' = Some (Str ''Investments'')" "y3 ''Type'' = Some (Str ''Investment'')"
  from out have m: "map (\<lambda>r. (r ''Category'', r ''Type'')) (rows out)
        = [(Some (Str ''Subscriptions''), Some (Str ''Expense'')),
           (Some (Str ''Transfers''), Some (Str ''Transfer'')),
           (Some (Str ''Investments''), Some (Str ''Investment''))]" by simp
  show ?thesis
    by (rule exI[of _ out], intro conjI, rule run, rule m, rule type_reclassification[OF run])
qed

end
